theory Spec2Isabelle
  imports Main "HOL-Library.Word"
begin

unbundle bit_operations_syntax

section \<open>Data model (ApplicationMonitor.h)\<close>

text \<open>
  The library is written for 8-bit AVR microcontrollers (it includes \<^verbatim>\<open>avr/eeprom.h\<close> and
  \<^verbatim>\<open>avr/wdt.h\<close>). On that target \<^verbatim>\<open>int\<close> is a 16-bit two's complement integer,
  \<^verbatim>\<open>size_t\<close> is a 16-bit unsigned integer, data pointers are 16 bits wide and multi-byte
  integers are stored least significant byte first. An \<^verbatim>\<open>int\<close> is therefore a \<open>16 word\<close>
  that is compared through \<open>sint\<close> (\<open><s\<close>, \<open>\<le>s\<close>), a \<^verbatim>\<open>uint8_t\<close> is an \<open>8 word\<close> and a
  \<^verbatim>\<open>uint32_t\<close> a \<open>32 word\<close>.
\<close>

type_synonym uint8_t = "8 word"
type_synonym uint32_t = "32 word"
type_synonym int16_t = "16 word"

text \<open>
  \<^verbatim>\<open>PROGRAM_COUNTER_SIZE\<close> is chosen by the preprocessor from the target: 3 bytes on the
  ATmega2560, 2 bytes on every other part.
\<close>

datatype mcu = ATmega2560 | OtherAVR

fun PROGRAM_COUNTER_SIZE :: "mcu \<Rightarrow> nat" where
  "PROGRAM_COUNTER_SIZE ATmega2560 = 3"
| "PROGRAM_COUNTER_SIZE OtherAVR = 2"

record CApplicationMonitorHeader =
  m_uSavedReports :: uint8_t
  m_uNextReport :: uint8_t

text \<open>
  The array \<^verbatim>\<open>m_auAddress[PROGRAM_COUNTER_SIZE]\<close> is a list of bytes; a report of the
  program for target \<open>t\<close> has \<open>PROGRAM_COUNTER_SIZE t\<close> of them.
\<close>

record CCrashReport =
  m_auAddress :: "uint8_t list"
  m_uData :: uint32_t

record CApplicationMonitor =
  c_nBaseAddress :: int16_t
  c_nMaxEntries :: int16_t
  m_CrashReport :: CCrashReport

text \<open>Both structures are packed, so their sizes are the sums of their fields' sizes.\<close>

definition sizeof_CApplicationMonitorHeader :: nat where
  "sizeof_CApplicationMonitorHeader = 2"

definition sizeof_CCrashReport :: "mcu \<Rightarrow> nat" where
  "sizeof_CCrashReport t = PROGRAM_COUNTER_SIZE t + 4"

subsection \<open>Object representations\<close>

text \<open>
  \<^verbatim>\<open>ReadBlock\<close> and \<^verbatim>\<open>WriteBlock\<close> move the bytes of a structure. The bytes of a
  \<^verbatim>\<open>uint32_t\<close> are little-endian; the same decoding is what
  \<^verbatim>\<open>memcpy(&uAddress, Report.m_auAddress, PROGRAM_COUNTER_SIZE)\<close> does to a zeroed
  \<^verbatim>\<open>uAddress\<close> in \<^verbatim>\<open>Dump\<close>.
\<close>

definition bytes_of_uint32 :: "uint32_t \<Rightarrow> uint8_t list" where
  "bytes_of_uint32 v =
     [ucast v, ucast (drop_bit 8 v), ucast (drop_bit 16 v), ucast (drop_bit 24 v)]"

fun uint32_of_bytes :: "uint8_t list \<Rightarrow> uint32_t" where
  "uint32_of_bytes [] = 0"
| "uint32_of_bytes (b # bs) = ucast b OR push_bit 8 (uint32_of_bytes bs)"

definition bytes_of_Header :: "CApplicationMonitorHeader \<Rightarrow> uint8_t list" where
  "bytes_of_Header h = [m_uSavedReports h, m_uNextReport h]"

definition Header_of_bytes :: "uint8_t list \<Rightarrow> CApplicationMonitorHeader" where
  "Header_of_bytes bs = \<lparr>m_uSavedReports = bs ! 0, m_uNextReport = bs ! 1\<rparr>"

definition bytes_of_CrashReport :: "CCrashReport \<Rightarrow> uint8_t list" where
  "bytes_of_CrashReport r = m_auAddress r @ bytes_of_uint32 (m_uData r)"

definition CrashReport_of_bytes :: "mcu \<Rightarrow> uint8_t list \<Rightarrow> CCrashReport" where
  "CrashReport_of_bytes t bs =
     \<lparr>m_auAddress = take (PROGRAM_COUNTER_SIZE t) bs,
      m_uData = uint32_of_bytes (take 4 (drop (PROGRAM_COUNTER_SIZE t) bs))\<rparr>"

section \<open>The machine: the monitor object, the EEPROM and the output sink\<close>

text \<open>
  The EEPROM is the byte store behind avr-libc's \<^verbatim>\<open>eeprom_read_byte\<close> and
  \<^verbatim>\<open>eeprom_write_byte\<close>: one byte per 16-bit address. Every access is also appended to a
  log, so that "this operation does not touch the EEPROM" is a property of the model.
\<close>

datatype eeprom_access = EepromRead int16_t | EepromWrite int16_t uint8_t

record machine =
  ApplicationMonitor :: CApplicationMonitor
  eeprom :: "int16_t \<Rightarrow> uint8_t"
  eeprom_log :: "eeprom_access list"

definition eeprom_read_byte :: "int16_t \<Rightarrow> machine \<Rightarrow> uint8_t \<times> machine" where
  "eeprom_read_byte p s = (eeprom s p, s\<lparr>eeprom_log := eeprom_log s @ [EepromRead p]\<rparr>)"

definition eeprom_write_byte :: "int16_t \<Rightarrow> uint8_t \<Rightarrow> machine \<Rightarrow> machine" where
  "eeprom_write_byte p v s =
     s\<lparr>eeprom := (eeprom s)(p := v), eeprom_log := eeprom_log s @ [EepromWrite p v]\<rparr>"

text \<open>
  The Arduino \<^verbatim>\<open>Print\<close> object that \<^verbatim>\<open>Dump\<close> writes to is the sequence of calls made
  on it: a flash string, a number with its radix, or an end of line.
\<close>

datatype print_call = PrintStr string | PrintNum nat nat | PrintLn

type_synonym Print = "print_call list"

section \<open>Operations (ApplicationMonitor.cpp)\<close>

text \<open>
  The constructor stores the two layout parameters and zeroes \<^verbatim>\<open>m_uData\<close>; it leaves the
  address bytes of the object's storage as they were.
\<close>

definition CApplicationMonitor_ctor ::
  "int16_t \<Rightarrow> int16_t \<Rightarrow> machine \<Rightarrow> machine" where
  "CApplicationMonitor_ctor nBaseAddress nMaxEntries s =
     s\<lparr>ApplicationMonitor :=
         \<lparr>c_nBaseAddress = nBaseAddress, c_nMaxEntries = nMaxEntries,
          m_CrashReport = (m_CrashReport (ApplicationMonitor s))\<lparr>m_uData := 0\<rparr>\<rparr>\<rparr>"

definition SetData :: "uint32_t \<Rightarrow> machine \<Rightarrow> machine" where
  "SetData uData s =
     s\<lparr>ApplicationMonitor := (ApplicationMonitor s)
         \<lparr>m_CrashReport := (m_CrashReport (ApplicationMonitor s))\<lparr>m_uData := uData\<rparr>\<rparr>\<rparr>"

definition GetData :: "machine \<Rightarrow> uint32_t" where
  "GetData s = m_uData (m_CrashReport (ApplicationMonitor s))"

text \<open>
  \<^verbatim>\<open>while (uSize--) *puData++ = eeprom_read_byte(nBaseAddress++)\<close>: the loop runs
  \<open>uSize\<close> times, and the address is a 16-bit value that is incremented each time (the
  pointer it is cast to wraps at \<open>2 ^ 16\<close>). The callers pass \<^verbatim>\<open>sizeof\<close> of a structure,
  which is 2, 6 or 7, so the \<^verbatim>\<open>uint8_t\<close> count is a natural number here.
\<close>

fun ReadBlock :: "int16_t \<Rightarrow> nat \<Rightarrow> machine \<Rightarrow> uint8_t list \<times> machine" where
  "ReadBlock nBaseAddress 0 s = ([], s)"
| "ReadBlock nBaseAddress (Suc uSize) s =
     (let (b, s1) = eeprom_read_byte nBaseAddress s;
          (bs, s2) = ReadBlock (nBaseAddress + 1) uSize s1
      in (b # bs, s2))"

text \<open>\<^verbatim>\<open>WriteBlock\<close> takes the \<open>uSize\<close> bytes found at \<^verbatim>\<open>pData\<close>.\<close>

fun WriteBlock :: "int16_t \<Rightarrow> uint8_t list \<Rightarrow> machine \<Rightarrow> machine" where
  "WriteBlock nBaseAddress [] s = s"
| "WriteBlock nBaseAddress (b # puData) s =
     WriteBlock (nBaseAddress + 1) puData (eeprom_write_byte nBaseAddress b s)"

text \<open>
  The validation at the end of \<^verbatim>\<open>LoadHeader\<close> ("Ensure the report structure is valid").
  In the comparisons the \<^verbatim>\<open>uint8_t\<close> field is promoted to \<^verbatim>\<open>int\<close> and compared
  with \<^verbatim>\<open>c_nMaxEntries\<close> as a signed number; the assignment of \<^verbatim>\<open>c_nMaxEntries\<close>
  to the field keeps its low byte.
\<close>

definition LoadHeader_validate ::
  "int16_t \<Rightarrow> CApplicationMonitorHeader \<Rightarrow> CApplicationMonitorHeader" where
  "LoadHeader_validate nMaxEntries rReportHeader =
     (let h1 = (if m_uSavedReports rReportHeader = 0xff
                then rReportHeader\<lparr>m_uSavedReports := 0\<rparr>
                else if nMaxEntries <s ucast (m_uSavedReports rReportHeader)
                then rReportHeader\<lparr>m_uSavedReports := ucast nMaxEntries\<rparr>
                else rReportHeader)
      in if nMaxEntries \<le>s ucast (m_uNextReport h1)
         then h1\<lparr>m_uNextReport := 0\<rparr>
         else h1)"

definition LoadHeader :: "machine \<Rightarrow> CApplicationMonitorHeader \<times> machine" where
  "LoadHeader s =
     (let (bs, s1) = ReadBlock (c_nBaseAddress (ApplicationMonitor s))
                       sizeof_CApplicationMonitorHeader s
      in (LoadHeader_validate (c_nMaxEntries (ApplicationMonitor s)) (Header_of_bytes bs), s1))"

definition SaveHeader :: "CApplicationMonitorHeader \<Rightarrow> machine \<Rightarrow> machine" where
  "SaveHeader rReportHeader s =
     WriteBlock (c_nBaseAddress (ApplicationMonitor s)) (bytes_of_Header rReportHeader) s"

text \<open>
  \<^verbatim>\<open>sizeof\<close> has the unsigned type \<^verbatim>\<open>size_t\<close>, so both the sum and the product are
  computed modulo \<open>2 ^ 16\<close>; the test \<^verbatim>\<open>nReport < c_nMaxEntries\<close> compares two signed
  integers.
\<close>

definition GetAddressForReport :: "mcu \<Rightarrow> int16_t \<Rightarrow> machine \<Rightarrow> int16_t" where
  "GetAddressForReport t nReport s =
     (let nAddress = c_nBaseAddress (ApplicationMonitor s)
                       + of_nat sizeof_CApplicationMonitorHeader
      in if nReport <s c_nMaxEntries (ApplicationMonitor s)
         then nAddress + nReport * of_nat (sizeof_CCrashReport t)
         else nAddress)"

definition SaveCurrentReport :: "mcu \<Rightarrow> int16_t \<Rightarrow> machine \<Rightarrow> machine" where
  "SaveCurrentReport t nReportSlot s =
     WriteBlock (GetAddressForReport t nReportSlot s)
       (bytes_of_CrashReport (m_CrashReport (ApplicationMonitor s))) s"

definition LoadReport :: "mcu \<Rightarrow> int16_t \<Rightarrow> machine \<Rightarrow> CCrashReport \<times> machine" where
  "LoadReport t nReport s =
     (let (bs, s1) = ReadBlock (GetAddressForReport t nReport s) (sizeof_CCrashReport t) s;
          rState = CrashReport_of_bytes t bs;
          uTemp = m_auAddress rState ! 0;
          rState1 = rState\<lparr>m_auAddress :=
                      (m_auAddress rState)[0 := m_auAddress rState ! (PROGRAM_COUNTER_SIZE t - 1)]\<rparr>;
          rState2 = rState1\<lparr>m_auAddress :=
                      (m_auAddress rState1)[PROGRAM_COUNTER_SIZE t - 1 := uTemp]\<rparr>
      in (rState2, s1))"

text \<open>
  The handler receives a pointer to the bytes the hardware pushed on the stack; the memory
  behind the pointer is a function from offsets to bytes. The handler ends in
  \<^verbatim>\<open>while (true);\<close> and never returns: the value of the function is the machine at the
  moment that final wait is entered, which is the state the next reset finds in the EEPROM.
  The watchdog timer itself (\<^verbatim>\<open>wdt_enable\<close>, \<^verbatim>\<open>wdt_disable\<close>, \<^verbatim>\<open>wdt_reset\<close>) is
  hardware outside the monitor object and the EEPROM, and is not part of the machine.
\<close>

definition WatchdogInterruptHandler :: "mcu \<Rightarrow> (nat \<Rightarrow> uint8_t) \<Rightarrow> machine \<Rightarrow> machine" where
  "WatchdogInterruptHandler t puProgramAddress s =
     (let (Header, s1) = LoadHeader s;
          s2 = s1\<lparr>ApplicationMonitor := (ApplicationMonitor s1)
                 \<lparr>m_CrashReport := (m_CrashReport (ApplicationMonitor s1))
                    \<lparr>m_auAddress := map puProgramAddress [0..<PROGRAM_COUNTER_SIZE t]\<rparr>\<rparr>\<rparr>;
          s3 = SaveCurrentReport t (ucast (m_uNextReport Header)) s2;
          Header1 = Header\<lparr>m_uNextReport := m_uNextReport Header + 1\<rparr>;
          Header2 = (if c_nMaxEntries (ApplicationMonitor s3) \<le>s ucast (m_uNextReport Header1)
                     then Header1\<lparr>m_uNextReport := 0\<rparr>
                     else Header1\<lparr>m_uSavedReports := m_uSavedReports Header1 + 1\<rparr>)
      in SaveHeader Header2 s3)"

text \<open>
  \<^verbatim>\<open>PrintValue\<close> prints the label, the number in the given radix and, when asked, an
  end of line.
\<close>

definition PrintValue :: "Print \<Rightarrow> string \<Rightarrow> uint32_t \<Rightarrow> nat \<Rightarrow> bool \<Rightarrow> Print" where
  "PrintValue rDestination pLabel uValue uRadix bNewLine =
     (let d1 = rDestination @ [PrintStr pLabel];
          d2 = d1 @ [PrintNum (unat uValue) uRadix]
      in if bNewLine then d2 @ [PrintLn] else d2)"

text \<open>
  The \<^verbatim>\<open>for\<close> loop of \<^verbatim>\<open>Dump\<close>, entered with the value of the counter
  \<^verbatim>\<open>uReport\<close>; \<^verbatim>\<open>DEC\<close> is 10 and \<^verbatim>\<open>HEX\<close> is 16. The counter and the bound are
  both \<^verbatim>\<open>uint8_t\<close>, so the counter reaches the bound before it could wrap.
\<close>

function Dump_loop ::
  "mcu \<Rightarrow> CApplicationMonitorHeader \<Rightarrow> uint8_t \<Rightarrow> Print \<Rightarrow> machine \<Rightarrow> Print \<times> machine" where
  "Dump_loop t Header uReport rDestination s =
     (if uReport < m_uSavedReports Header
      then (let (Report, s1) = LoadReport t (ucast uReport) s;
                d1 = rDestination @ [PrintNum (unat uReport) 10];
                uAddress = uint32_of_bytes (take (PROGRAM_COUNTER_SIZE t) (m_auAddress Report));
                d2 = PrintValue d1 '': word-address=0x'' uAddress 16 False;
                d3 = PrintValue d2 '': byte-address=0x'' (uAddress * 2) 16 False;
                d4 = PrintValue d3 '', data=0x'' (m_uData Report) 16 True
            in Dump_loop t Header (uReport + 1) d4 s1)
      else (rDestination, s))"
  by pat_completeness auto
termination
proof (relation "measure (\<lambda>(t, Header, uReport, rDestination, s).
                   unat (m_uSavedReports Header) - unat uReport)")
  show "wf (measure (\<lambda>(t, Header, uReport, rDestination, s).
                   unat (m_uSavedReports Header) - unat uReport))"
    by simp
next
  fix t :: mcu and Header :: CApplicationMonitorHeader and uReport :: uint8_t
    and rDestination :: Print and s :: machine and x xa y xb xc xd xe xf
  assume lt: "uReport < m_uSavedReports Header"
  from lt have "uReport \<noteq> - 1"
    by (metis word_order.extremum_strict)
  then have "1 + uReport \<noteq> 0"
    by (metis add.commute add_eq_0_iff2)
  then have "unat (uReport + 1) = Suc (unat uReport)"
    by (simp add: unatSuc add.commute)
  moreover from lt have "unat uReport < unat (m_uSavedReports Header)"
    by (simp add: word_less_nat_alt)
  ultimately show "((t, Header, uReport + 1, xf, y), (t, Header, uReport, rDestination, s))
      \<in> measure (\<lambda>(t, Header, uReport, rDestination, s).
                   unat (m_uSavedReports Header) - unat uReport)"
    by simp
qed

declare Dump_loop.simps [simp del]

definition Dump :: "mcu \<Rightarrow> Print \<Rightarrow> bool \<Rightarrow> machine \<Rightarrow> Print \<times> machine" where
  "Dump t rDestination bOnlyIfPresent s =
     (let (Header, s1) = LoadHeader s
      in if \<not> bOnlyIfPresent \<or> m_uSavedReports Header \<noteq> 0
         then (let d1 = rDestination @ [PrintStr ''Application Monitor'', PrintLn];
                   d2 = d1 @ [PrintStr ''-------------------'', PrintLn];
                   d3 = PrintValue d2 ''Saved reports: '' (ucast (m_uSavedReports Header)) 10 True;
                   d4 = PrintValue d3 ''Next report: '' (ucast (m_uNextReport Header)) 10 True
               in Dump_loop t Header 0 d4 s1)
         else (rDestination, s1))"

text \<open>
  Consecutive traps: the handler runs once for each element of the list, which gives the
  stack bytes that trap finds. The EEPROM is what carries over from one trap to the next.
\<close>

fun traps :: "mcu \<Rightarrow> (nat \<Rightarrow> uint8_t) list \<Rightarrow> machine \<Rightarrow> machine" where
  "traps t [] s = s"
| "traps t (pu # pus) s = traps t pus (WatchdogInterruptHandler t pu s)"

section \<open>Start-up states\<close>

text \<open>
  \<^verbatim>\<open>Program.cpp\<close> declares the monitor as a global object: its storage is zeroed before
  the constructor runs. \<open>boot\<close> is the machine after the construction of a monitor with the
  given parameters, over an EEPROM with the given contents and an empty access log;
  \<open>erased\<close> is the EEPROM as it leaves the factory ("eeprom is 0xff when uninitialized").
\<close>

definition zeroed_storage :: "mcu \<Rightarrow> CApplicationMonitor" where
  "zeroed_storage t =
     \<lparr>c_nBaseAddress = 0, c_nMaxEntries = 0,
      m_CrashReport = \<lparr>m_auAddress = replicate (PROGRAM_COUNTER_SIZE t) 0, m_uData = 0\<rparr>\<rparr>"

definition boot :: "mcu \<Rightarrow> int16_t \<Rightarrow> int16_t \<Rightarrow> (int16_t \<Rightarrow> uint8_t) \<Rightarrow> machine" where
  "boot t nBaseAddress nMaxEntries mem =
     CApplicationMonitor_ctor nBaseAddress nMaxEntries
       \<lparr>ApplicationMonitor = zeroed_storage t, eeprom = mem, eeprom_log = []\<rparr>"

definition erased :: "int16_t \<Rightarrow> uint8_t" where
  "erased = (\<lambda>p. 0xff)"

lemmas boot_simps = boot_def zeroed_storage_def CApplicationMonitor_ctor_def erased_def

lemmas eval_simps = boot_simps sizeof_CApplicationMonitorHeader_def sizeof_CCrashReport_def
  word_sle_eq word_sless_alt

section \<open>Blocks of bytes\<close>

lemma uint32_roundtrip: "uint32_of_bytes (bytes_of_uint32 v) = v"
  unfolding bytes_of_uint32_def
  apply (simp)
  apply (rule bit_word_eqI)
  apply (auto simp add: bit_simps)
  subgoal for n by (cases "24 \<le> n") simp_all
  done

lemma ReadBlock_fst:
  "fst (ReadBlock a n s) = map (\<lambda>i. eeprom s (a + of_nat i)) [0..<n]"
proof (induction n arbitrary: a s)
  case 0
  show ?case by simp
next
  case (Suc n)
  have "map (\<lambda>i. eeprom s (a + of_nat i)) [0..<Suc n]
        = eeprom s a # map (\<lambda>i. eeprom s (a + 1 + of_nat i)) [0..<n]"
    by (simp add: upt_rec [of 0 "Suc n"] map_Suc_upt [symmetric] add.assoc del: upt_Suc)
  then show ?case
    using Suc.IH [of "a + 1"]
    by (simp add: eeprom_read_byte_def split_beta Let_def del: upt_Suc)
qed

lemma ReadBlock_snd:
  "snd (ReadBlock a n s) = s\<lparr>eeprom_log := eeprom_log s @ map (\<lambda>i. EepromRead (a + of_nat i)) [0..<n]\<rparr>"
proof (induction n arbitrary: a s)
  case 0
  show ?case by simp
next
  case (Suc n)
  have "map (\<lambda>i. EepromRead (a + of_nat i)) [0..<Suc n]
        = EepromRead a # map (\<lambda>i. EepromRead (a + 1 + of_nat i)) [0..<n]"
    by (simp add: upt_rec [of 0 "Suc n"] map_Suc_upt [symmetric] add.assoc del: upt_Suc)
  then show ?case
    using Suc.IH [of "a + 1"]
    by (simp add: eeprom_read_byte_def split_beta Let_def del: upt_Suc)
qed

lemma WriteBlock_monitor: "ApplicationMonitor (WriteBlock a bs s) = ApplicationMonitor s"
  by (induction bs arbitrary: a s) (simp_all add: eeprom_write_byte_def)

lemma WriteBlock_log:
  "eeprom_log (WriteBlock a bs s)
     = eeprom_log s @ map (\<lambda>i. EepromWrite (a + of_nat i) (bs ! i)) [0..<length bs]"
proof (induction bs arbitrary: a s)
  case Nil
  show ?case by simp
next
  case (Cons b bs)
  have "map (\<lambda>i. EepromWrite (a + of_nat i) ((b # bs) ! i)) [0..<length (b # bs)]
        = EepromWrite a b # map (\<lambda>i. EepromWrite (a + 1 + of_nat i) (bs ! i)) [0..<length bs]"
    by (simp add: upt_rec [of 0 "Suc (length bs)"] map_Suc_upt [symmetric] add.assoc del: upt_Suc)
  then show ?case
    using Cons.IH [of "a + 1"]
    by (simp add: eeprom_write_byte_def del: upt_Suc)
qed

lemma WriteBlock_other:
  "(\<And>i. i < length bs \<Longrightarrow> p \<noteq> a + of_nat i) \<Longrightarrow> eeprom (WriteBlock a bs s) p = eeprom s p"
proof (induction bs arbitrary: a s)
  case Nil
  show ?case by simp
next
  case (Cons b bs)
  have "p \<noteq> a" using Cons.prems [of 0] by simp
  moreover have "\<And>i. i < length bs \<Longrightarrow> p \<noteq> a + 1 + of_nat i"
    using Cons.prems [of "Suc _"] by (simp add: add.assoc)
  ultimately show ?case
    using Cons.IH [of "a + 1"] by (simp add: eeprom_write_byte_def)
qed

lemma WriteBlock_at:
  "i < length bs \<Longrightarrow> length bs \<le> 2 ^ 16 \<Longrightarrow> eeprom (WriteBlock a bs s) (a + of_nat i) = bs ! i"
proof (induction bs arbitrary: a s i)
  case Nil
  then show ?case by simp
next
  case (Cons b bs)
  show ?case
  proof (cases i)
    case 0
    have "\<And>j. j < length bs \<Longrightarrow> a \<noteq> a + 1 + of_nat j"
    proof
      fix j assume j: "j < length bs" and eq: "a = a + 1 + of_nat j"
      then have "(of_nat (Suc j) :: 16 word) = 0" by (simp add: add.assoc)
      moreover have "Suc j < 2 ^ 16" using j Cons.prems by simp
      ultimately show False
        using of_nat_neq_0 [of "Suc j", where 'a = 16] by simp
    qed
    then have "eeprom (WriteBlock (a + 1) bs (eeprom_write_byte a b s)) a = eeprom (eeprom_write_byte a b s) a"
      by (rule WriteBlock_other) 
    then show ?thesis using 0 by (simp add: eeprom_write_byte_def)
  next
    case (Suc j)
    then show ?thesis using Cons.IH [of j "a + 1"] Cons.prems by (simp add: add.assoc)
  qed
qed


section \<open>Integer promotion and truncation\<close>

lemma promote_uint8: "sint (ucast (b :: 8 word) :: 16 word) = uint b"
proof -
  have "uint b < 2 ^ LENGTH(8)" by (rule uint_bounded)
  then have "uint b < 2 ^ 15" by simp
  moreover have "- (2 ^ 15) \<le> uint b" by (smt (verit) uint_nonnegative zero_less_power)
  ultimately have "signed_take_bit 15 (uint b) = uint b"
    by (simp add: signed_take_bit_int_eq_self)
  then show ?thesis by (simp add: signed_ucast_eq)
qed

section \<open>Loading the header\<close>

lemma LoadHeader_fst:
  "fst (LoadHeader s) =
     LoadHeader_validate (c_nMaxEntries (ApplicationMonitor s))
       \<lparr>m_uSavedReports = eeprom s (c_nBaseAddress (ApplicationMonitor s)),
        m_uNextReport = eeprom s (c_nBaseAddress (ApplicationMonitor s) + 1)\<rparr>"
  by (simp add: LoadHeader_def split_beta ReadBlock_fst sizeof_CApplicationMonitorHeader_def
        Header_of_bytes_def eval_nat_numeral eeprom_read_byte_def)

lemma LoadHeader_snd:
  "snd (LoadHeader s) =
     s\<lparr>eeprom_log := eeprom_log s @
         [EepromRead (c_nBaseAddress (ApplicationMonitor s)),
          EepromRead (c_nBaseAddress (ApplicationMonitor s) + 1)]\<rparr>"
  by (simp add: LoadHeader_def split_beta ReadBlock_snd sizeof_CApplicationMonitorHeader_def
        eval_nat_numeral eeprom_read_byte_def)


lemma uint_ucast_int16:
  "0 \<le> sint (n :: 16 word) \<Longrightarrow> sint n < 256 \<Longrightarrow> uint (ucast n :: 8 word) = sint n"
proof -
  assume a: "0 \<le> sint n" and b: "sint n < 256"
  have "uint n = take_bit LENGTH(16) (sint n)" by (rule uint_sint)
  also have "\<dots> = sint n" using a b by (simp add: take_bit_int_eq_self)
  finally have eq: "sint n = uint n" by simp
  have "uint (ucast n :: 8 word) = take_bit 8 (uint n)"
    by (simp add: unsigned_ucast_eq)
  also have "\<dots> = uint n"
    using b eq by (simp add: take_bit_int_eq_self)
  finally show ?thesis using eq by simp
qed

lemma unat_int16_nonneg: "0 \<le> sint (i :: 16 word) \<Longrightarrow> unat i = nat (sint i)"
proof -
  assume a: "0 \<le> sint i"
  have "sint i < 2 ^ (LENGTH(16) - 1)" by (rule sint_lt)
  then have b: "sint i < 2 ^ 16" by simp
  have "uint i = take_bit LENGTH(16) (sint i)" by (rule uint_sint)
  also have "\<dots> = sint i" using a b by (simp add: take_bit_int_eq_self)
  finally show ?thesis by (simp add: unat_eq_nat_uint del: nat_uint_eq)
qed

lemma GetAddressForReport_in_range:
  "i <s c_nMaxEntries (ApplicationMonitor s) \<Longrightarrow>
   GetAddressForReport t i s =
     of_nat (unat (c_nBaseAddress (ApplicationMonitor s)) + sizeof_CApplicationMonitorHeader
             + unat i * sizeof_CCrashReport t)"
  by (simp add: GetAddressForReport_def Let_def)

section \<open>Writing a report and reading it back\<close>

lemma length_bytes_of_CrashReport:
  "length (m_auAddress r) = PROGRAM_COUNTER_SIZE t \<Longrightarrow>
   length (bytes_of_CrashReport r) = sizeof_CCrashReport t"
  by (simp add: bytes_of_CrashReport_def bytes_of_uint32_def sizeof_CCrashReport_def)

lemma ReadBlock_WriteBlock:
  assumes "length bs \<le> 2 ^ 16"
  shows "fst (ReadBlock a (length bs) (WriteBlock a bs s)) = bs"
proof -
  have "map (\<lambda>i. eeprom (WriteBlock a bs s) (a + of_nat i)) [0..<length bs]
          = map (\<lambda>i. bs ! i) [0..<length bs]"
    using assms by (intro map_cong refl) (simp add: WriteBlock_at)
  then show ?thesis by (simp add: ReadBlock_fst map_nth)
qed

lemma CrashReport_of_bytes_inverse:
  "length (m_auAddress r) = PROGRAM_COUNTER_SIZE t \<Longrightarrow>
   CrashReport_of_bytes t (bytes_of_CrashReport r) = r"
proof -
  assume len: "length (m_auAddress r) = PROGRAM_COUNTER_SIZE t"
  have "length (bytes_of_uint32 (m_uData r)) = 4"
    by (simp add: bytes_of_uint32_def)
  then have "take 4 (bytes_of_uint32 (m_uData r)) = bytes_of_uint32 (m_uData r)"
    by simp
  then show ?thesis
    using len by (simp add: CrashReport_of_bytes_def bytes_of_CrashReport_def uint32_roundtrip)
qed

lemma swap_ends:
  "length a = PROGRAM_COUNTER_SIZE t \<Longrightarrow>
   (a[0 := a ! (PROGRAM_COUNTER_SIZE t - 1)])[PROGRAM_COUNTER_SIZE t - 1 := a ! 0] = rev a"
proof (cases t)
  case ATmega2560
  assume "length a = PROGRAM_COUNTER_SIZE t"
  then obtain x y z where "a = [x, y, z]"
    using ATmega2560 by (auto simp: length_Suc_conv eval_nat_numeral)
  then show ?thesis using ATmega2560 by simp
next
  case OtherAVR
  assume "length a = PROGRAM_COUNTER_SIZE t"
  then obtain x y where "a = [x, y]"
    using OtherAVR by (auto simp: length_Suc_conv eval_nat_numeral)
  then show ?thesis using OtherAVR by simp
qed

lemma LoadReport_fst:
  "fst (LoadReport t i s) =
     (let r = CrashReport_of_bytes t
                (fst (ReadBlock (GetAddressForReport t i s) (sizeof_CCrashReport t) s));
          a = m_auAddress r
      in r\<lparr>m_auAddress :=
             (a[0 := a ! (PROGRAM_COUNTER_SIZE t - 1)])[PROGRAM_COUNTER_SIZE t - 1 := a ! 0]\<rparr>)"
  by (simp add: LoadReport_def Let_def split_beta)

lemma GetAddressForReport_cong:
  "ApplicationMonitor s' = ApplicationMonitor s \<Longrightarrow>
   GetAddressForReport t i s' = GetAddressForReport t i s"
  by (simp add: GetAddressForReport_def)

text \<open>What \<^verbatim>\<open>LoadReport\<close> returns depends on the EEPROM contents and the layout only.\<close>

lemma LoadReport_fst_layout:
  "eeprom s' = eeprom s \<Longrightarrow>
   c_nBaseAddress (ApplicationMonitor s') = c_nBaseAddress (ApplicationMonitor s) \<Longrightarrow>
   c_nMaxEntries (ApplicationMonitor s') = c_nMaxEntries (ApplicationMonitor s) \<Longrightarrow>
   fst (LoadReport t i s') = fst (LoadReport t i s)"
  by (simp add: LoadReport_fst ReadBlock_fst GetAddressForReport_def)

lemma SaveCurrentReport_LoadReport:
  assumes "length (m_auAddress (m_CrashReport (ApplicationMonitor s))) = PROGRAM_COUNTER_SIZE t"
  shows "fst (LoadReport t i (SaveCurrentReport t i s))
           = (m_CrashReport (ApplicationMonitor s))
               \<lparr>m_auAddress := rev (m_auAddress (m_CrashReport (ApplicationMonitor s)))\<rparr>"
proof -
  let ?r = "m_CrashReport (ApplicationMonitor s)"
  let ?w = "SaveCurrentReport t i s"
  have len: "length (bytes_of_CrashReport ?r) = sizeof_CCrashReport t"
    using assms by (rule length_bytes_of_CrashReport)
  have a: "GetAddressForReport t i ?w = GetAddressForReport t i s"
    by (rule GetAddressForReport_cong) (simp add: SaveCurrentReport_def WriteBlock_monitor)
  have "length (bytes_of_CrashReport ?r) \<le> 2 ^ 16"
    unfolding len by (cases t) (simp_all add: sizeof_CCrashReport_def)
  then have "fst (ReadBlock (GetAddressForReport t i s) (length (bytes_of_CrashReport ?r)) ?w)
          = bytes_of_CrashReport ?r"
    unfolding SaveCurrentReport_def by (rule ReadBlock_WriteBlock)
  then have rd: "fst (ReadBlock (GetAddressForReport t i ?w) (sizeof_CCrashReport t) ?w)
          = bytes_of_CrashReport ?r"
    unfolding a len .
  have dec: "CrashReport_of_bytes t (bytes_of_CrashReport ?r) = ?r"
    using assms by (rule CrashReport_of_bytes_inverse)
  show ?thesis
    unfolding LoadReport_fst rd dec using swap_ends [OF assms] by (simp add: Let_def)
qed


section \<open>The trap handler\<close>

lemma ucast_uint8_of_nat: "(ucast (x :: 8 word) :: 16 word) = of_nat (unat x)"
  by transfer simp

lemma add_of_nat_inj_int16:
  "x < 2 ^ 16 \<Longrightarrow> y < 2 ^ 16 \<Longrightarrow> (b :: 16 word) + of_nat x = b + of_nat y \<Longrightarrow> x = y"
  by (simp add: word_of_nat_eq_iff take_bit_nat_eq_self)

lemma unat_uint8_le: "unat (x :: 8 word) \<le> 255"
proof -
  have "unat x < 2 ^ LENGTH(8)" by (rule unsigned_less)
  then show ?thesis by simp
qed

lemma sizeof_CCrashReport_le: "sizeof_CCrashReport t \<le> 7"
  by (cases t) (simp_all add: sizeof_CCrashReport_def)

lemma slot_offset_bound:
  assumes "k < sizeof_CCrashReport t"
  shows "sizeof_CApplicationMonitorHeader + unat (x :: 8 word) * sizeof_CCrashReport t + k < 2 ^ 16"
proof -
  have "unat x * sizeof_CCrashReport t \<le> 255 * 7"
    by (rule mult_le_mono [OF unat_uint8_le sizeof_CCrashReport_le])
  moreover have "k < 7" using assms sizeof_CCrashReport_le [of t] by simp
  ultimately show ?thesis by (simp add: sizeof_CApplicationMonitorHeader_def)
qed

text \<open>The slot the handler writes: the validated next-report index selects it.\<close>

lemma validated_next:
  "ucast (m_uNextReport (LoadHeader_validate n h)) <s n \<or> m_uNextReport (LoadHeader_validate n h) = 0"
  by (auto simp add: LoadHeader_validate_def Let_def word_sle_eq word_sless_alt)

lemma GetAddressForReport_slot:
  assumes "ucast (x :: 8 word) <s c_nMaxEntries (ApplicationMonitor s) \<or> x = 0"
  shows "GetAddressForReport t (ucast x) s =
           c_nBaseAddress (ApplicationMonitor s)
             + of_nat (sizeof_CApplicationMonitorHeader + unat x * sizeof_CCrashReport t)"
  using assms by (auto simp add: GetAddressForReport_def Let_def)

lemma WatchdogInterruptHandler_unfold:
  "WatchdogInterruptHandler t pu s =
     (let Header = fst (LoadHeader s);
          s2 = (snd (LoadHeader s))\<lparr>ApplicationMonitor := (ApplicationMonitor s)
                 \<lparr>m_CrashReport := (m_CrashReport (ApplicationMonitor s))
                    \<lparr>m_auAddress := map pu [0..<PROGRAM_COUNTER_SIZE t]\<rparr>\<rparr>\<rparr>;
          s3 = SaveCurrentReport t (ucast (m_uNextReport Header)) s2;
          Header2 = (if c_nMaxEntries (ApplicationMonitor s) \<le>s ucast (m_uNextReport Header + 1)
                     then Header\<lparr>m_uNextReport := 0\<rparr>
                     else Header\<lparr>m_uNextReport := m_uNextReport Header + 1,
                                 m_uSavedReports := m_uSavedReports Header + 1\<rparr>)
      in SaveHeader Header2 s3)"
  by (simp add: WatchdogInterruptHandler_def split_beta Let_def LoadHeader_snd
        SaveCurrentReport_def WriteBlock_monitor)

lemma WatchdogInterruptHandler_monitor:
  "ApplicationMonitor (WatchdogInterruptHandler t pu s) =
     (ApplicationMonitor s)\<lparr>m_CrashReport := (m_CrashReport (ApplicationMonitor s))
        \<lparr>m_auAddress := map pu [0..<PROGRAM_COUNTER_SIZE t]\<rparr>\<rparr>"
  by (simp add: WatchdogInterruptHandler_unfold Let_def SaveHeader_def SaveCurrentReport_def
        WriteBlock_monitor LoadHeader_snd)

lemma WriteBlock_Header_at:
  "eeprom (WriteBlock b (bytes_of_Header h) s) b = m_uSavedReports h
   \<and> eeprom (WriteBlock b (bytes_of_Header h) s) (b + 1) = m_uNextReport h"
  by (simp add: bytes_of_Header_def eeprom_write_byte_def)

lemma SaveHeader_LoadHeader:
  "fst (LoadHeader (SaveHeader h s)) = LoadHeader_validate (c_nMaxEntries (ApplicationMonitor s)) h"
  by (cases h) (simp add: LoadHeader_fst SaveHeader_def WriteBlock_monitor WriteBlock_Header_at)

lemma WatchdogInterruptHandler_header:
  "fst (LoadHeader (WatchdogInterruptHandler t pu s)) =
     (let Header = fst (LoadHeader s);
          n = c_nMaxEntries (ApplicationMonitor s)
      in LoadHeader_validate n
           (if n \<le>s ucast (m_uNextReport Header + 1)
            then Header\<lparr>m_uNextReport := 0\<rparr>
            else Header\<lparr>m_uNextReport := m_uNextReport Header + 1,
                        m_uSavedReports := m_uSavedReports Header + 1\<rparr>))"
  by (simp add: WatchdogInterruptHandler_unfold Let_def SaveHeader_LoadHeader
        SaveCurrentReport_def WriteBlock_monitor LoadHeader_snd)

lemma WatchdogInterruptHandler_slot:
  fixes s :: machine and t :: mcu and pu :: "nat \<Rightarrow> uint8_t"
  defines "x \<equiv> m_uNextReport (fst (LoadHeader s))"
  defines "r \<equiv> (m_CrashReport (ApplicationMonitor s))\<lparr>m_auAddress := map pu [0..<PROGRAM_COUNTER_SIZE t]\<rparr>"
  shows "fst (ReadBlock (GetAddressForReport t (ucast x) s) (sizeof_CCrashReport t)
                (WatchdogInterruptHandler t pu s)) = bytes_of_CrashReport r"
proof -
  let ?b = "c_nBaseAddress (ApplicationMonitor s)"
  let ?A = "GetAddressForReport t (ucast x) s"
  let ?s2 = "(snd (LoadHeader s))\<lparr>ApplicationMonitor := (ApplicationMonitor s)\<lparr>m_CrashReport := r\<rparr>\<rparr>"
  let ?s3 = "WriteBlock ?A (bytes_of_CrashReport r) ?s2"
  have len: "length (bytes_of_CrashReport r) = sizeof_CCrashReport t"
    by (rule length_bytes_of_CrashReport) (simp add: r_def)
  have A2: "GetAddressForReport t (ucast x) ?s2 = ?A"
    by (simp add: GetAddressForReport_def)
  define h2 where "h2 =
     (if c_nMaxEntries (ApplicationMonitor s) \<le>s ucast (x + 1)
      then (fst (LoadHeader s))\<lparr>m_uNextReport := 0\<rparr>
      else (fst (LoadHeader s))\<lparr>m_uNextReport := x + 1,
             m_uSavedReports := m_uSavedReports (fst (LoadHeader s)) + 1\<rparr>)"
  have "WatchdogInterruptHandler t pu s
          = WriteBlock ?b (bytes_of_Header h2)
              (WriteBlock (GetAddressForReport t (ucast x) ?s2) (bytes_of_CrashReport r) ?s2)"
    unfolding WatchdogInterruptHandler_unfold h2_def x_def r_def
    by (simp add: Let_def SaveHeader_def SaveCurrentReport_def WriteBlock_monitor LoadHeader_snd)
  then have s': "WatchdogInterruptHandler t pu s = WriteBlock ?b (bytes_of_Header h2) ?s3"
    unfolding A2 .
  have "ucast x <s c_nMaxEntries (ApplicationMonitor s) \<or> x = 0"
    unfolding x_def LoadHeader_fst by (rule validated_next)
  then have A: "?A = ?b + of_nat (sizeof_CApplicationMonitorHeader + unat x * sizeof_CCrashReport t)"
    by (rule GetAddressForReport_slot)
  have cell: "eeprom (WatchdogInterruptHandler t pu s) (?A + of_nat k) = bytes_of_CrashReport r ! k"
    if k: "k < sizeof_CCrashReport t" for k
  proof -
    have off: "sizeof_CApplicationMonitorHeader + unat x * sizeof_CCrashReport t + k < 2 ^ 16"
      using k by (rule slot_offset_bound)
    have Ak: "?A + of_nat k = ?b + of_nat (sizeof_CApplicationMonitorHeader + unat x * sizeof_CCrashReport t + k)"
      unfolding A by (simp add: add.assoc)
    have ne: "?A + of_nat k \<noteq> ?b + of_nat i" if "i < length (bytes_of_Header h2)" for i
    proof
      assume "?A + of_nat k = ?b + of_nat i"
      then have "?b + of_nat (sizeof_CApplicationMonitorHeader + unat x * sizeof_CCrashReport t + k)
                   = ?b + of_nat i"
        unfolding Ak .
      moreover have "i < 2 ^ 16" using that by (simp add: bytes_of_Header_def)
      ultimately have "sizeof_CApplicationMonitorHeader + unat x * sizeof_CCrashReport t + k = i"
        using off by (intro add_of_nat_inj_int16 [of _ _ ?b])
      then show False
        using that by (simp add: bytes_of_Header_def sizeof_CApplicationMonitorHeader_def)
    qed
    have "eeprom (WatchdogInterruptHandler t pu s) (?A + of_nat k) = eeprom ?s3 (?A + of_nat k)"
      unfolding s' using ne by (rule WriteBlock_other)
    also have "\<dots> = bytes_of_CrashReport r ! k"
      using k len sizeof_CCrashReport_le [of t] by (intro WriteBlock_at) simp_all
    finally show ?thesis .
  qed
  have "map (\<lambda>k. eeprom (WatchdogInterruptHandler t pu s) (?A + of_nat k)) [0..<sizeof_CCrashReport t]
          = map (\<lambda>k. bytes_of_CrashReport r ! k) [0..<length (bytes_of_CrashReport r)]"
    unfolding len by (intro map_cong refl) (simp add: cell)
  then show ?thesis by (simp add: ReadBlock_fst map_nth)
qed

lemma WatchdogInterruptHandler_saved_report:
  "fst (LoadReport t (ucast (m_uNextReport (fst (LoadHeader s)))) (WatchdogInterruptHandler t pu s))
     = \<lparr>m_auAddress = rev (map pu [0..<PROGRAM_COUNTER_SIZE t]),
        m_uData = m_uData (m_CrashReport (ApplicationMonitor s))\<rparr>"
proof -
  let ?r = "(m_CrashReport (ApplicationMonitor s))\<lparr>m_auAddress := map pu [0..<PROGRAM_COUNTER_SIZE t]\<rparr>"
  let ?x = "m_uNextReport (fst (LoadHeader s))"
  have len: "length (m_auAddress ?r) = PROGRAM_COUNTER_SIZE t" by simp
  have a: "GetAddressForReport t (ucast ?x) (WatchdogInterruptHandler t pu s)
             = GetAddressForReport t (ucast ?x) s"
    by (simp add: GetAddressForReport_def WatchdogInterruptHandler_monitor)
  have dec: "CrashReport_of_bytes t (bytes_of_CrashReport ?r) = ?r"
    using len by (rule CrashReport_of_bytes_inverse)
  show ?thesis
    unfolding LoadReport_fst a WatchdogInterruptHandler_slot dec
    using swap_ends [OF len] by (simp add: Let_def)
qed

lemma WatchdogInterruptHandler_config:
  "c_nMaxEntries (ApplicationMonitor (WatchdogInterruptHandler t pu s)) = c_nMaxEntries (ApplicationMonitor s)
   \<and> c_nBaseAddress (ApplicationMonitor (WatchdogInterruptHandler t pu s)) = c_nBaseAddress (ApplicationMonitor s)"
  by (simp add: WatchdogInterruptHandler_monitor)

lemma traps_config:
  "c_nMaxEntries (ApplicationMonitor (traps t pus s)) = c_nMaxEntries (ApplicationMonitor s)
   \<and> c_nBaseAddress (ApplicationMonitor (traps t pus s)) = c_nBaseAddress (ApplicationMonitor s)"
  by (induction pus arbitrary: s) (simp_all add: WatchdogInterruptHandler_config)

lemma uint_succ_uint8: "uint (a :: 8 word) < 255 \<Longrightarrow> uint (a + 1) = uint a + 1"
proof -
  assume "uint a < 255"
  then have "uint a + uint (1 :: 8 word) < 2 ^ LENGTH(8)" by simp
  then have "uint (a + 1) = uint a + uint (1 :: 8 word)" by (simp only: uint_add_lem)
  then show ?thesis by simp
qed

text \<open>One trap while the log is not full: both counters are incremented.\<close>

lemma trap_below_capacity:
  assumes h: "fst (LoadHeader s) = \<lparr>m_uSavedReports = a, m_uNextReport = a\<rparr>"
    and j: "uint a + 1 < sint (c_nMaxEntries (ApplicationMonitor s))"
    and n: "sint (c_nMaxEntries (ApplicationMonitor s)) \<le> 255"
  shows "fst (LoadHeader (WatchdogInterruptHandler t pu s))
           = \<lparr>m_uSavedReports = a + 1, m_uNextReport = a + 1\<rparr>
         \<and> uint (a + 1) = uint a + 1"
proof -
  have u: "uint (a + 1) = uint a + 1" using j n by (intro uint_succ_uint8) simp
  have ne: "a + 1 \<noteq> 0xff"
  proof
    assume "a + 1 = 0xff"
    then have "uint (a + 1) = 255" by simp
    with u j n show False by simp
  qed
  have "fst (LoadHeader (WatchdogInterruptHandler t pu s))
           = \<lparr>m_uSavedReports = a + 1, m_uNextReport = a + 1\<rparr>"
    unfolding WatchdogInterruptHandler_header h
    using j ne u
    by (simp add: Let_def LoadHeader_validate_def word_sle_eq word_sless_alt promote_uint8)
  with u show ?thesis by simp
qed

text \<open>The trap that fills the last slot: the index wraps and the count is not incremented.\<close>

lemma trap_at_capacity:
  assumes h: "fst (LoadHeader s) = \<lparr>m_uSavedReports = a, m_uNextReport = a\<rparr>"
    and j: "uint a + 1 = sint (c_nMaxEntries (ApplicationMonitor s))"
    and n: "sint (c_nMaxEntries (ApplicationMonitor s)) \<le> 255"
  shows "fst (LoadHeader (WatchdogInterruptHandler t pu s))
           = \<lparr>m_uSavedReports = a, m_uNextReport = 0\<rparr>"
proof -
  have u: "uint (a + 1) = uint a + 1" using j n by (intro uint_succ_uint8) simp
  have ne: "a \<noteq> 0xff"
  proof
    assume "a = 0xff"
    then have "uint a = 255" by simp
    with j n show False by simp
  qed
  show ?thesis
    unfolding WatchdogInterruptHandler_header h
    using j ne u
    by (simp add: Let_def LoadHeader_validate_def word_sle_eq word_sless_alt promote_uint8)
qed

lemma traps_below_capacity:
  assumes "fst (LoadHeader s) = \<lparr>m_uSavedReports = a, m_uNextReport = a\<rparr>"
    and "uint a + int (length pus) < sint (c_nMaxEntries (ApplicationMonitor s))"
    and "sint (c_nMaxEntries (ApplicationMonitor s)) \<le> 255"
  shows "\<exists>a'. fst (LoadHeader (traps t pus s)) = \<lparr>m_uSavedReports = a', m_uNextReport = a'\<rparr>
              \<and> uint a' = uint a + int (length pus)"
  using assms
proof (induction pus arbitrary: s a)
  case Nil
  then show ?case by simp
next
  case (Cons pu pus)
  let ?s' = "WatchdogInterruptHandler t pu s"
  have step: "fst (LoadHeader ?s') = \<lparr>m_uSavedReports = a + 1, m_uNextReport = a + 1\<rparr>
              \<and> uint (a + 1) = uint a + 1"
    using Cons.prems by (intro trap_below_capacity) simp_all
  then have "\<exists>a'. fst (LoadHeader (traps t pus ?s')) = \<lparr>m_uSavedReports = a', m_uNextReport = a'\<rparr>
              \<and> uint a' = uint (a + 1) + int (length pus)"
    using Cons.prems by (intro Cons.IH) (simp_all add: WatchdogInterruptHandler_config)
  then show ?case using step by auto
qed

text \<open>While the log is not full, \<open>k\<close> traps on an empty log leave both counters at \<open>k\<close>.\<close>

lemma traps_counts_below_capacity:
  assumes "fst (LoadHeader s) = \<lparr>m_uSavedReports = 0, m_uNextReport = 0\<rparr>"
    and "int (length pus) < sint (c_nMaxEntries (ApplicationMonitor s))"
    and "sint (c_nMaxEntries (ApplicationMonitor s)) \<le> 255"
  shows "uint (m_uSavedReports (fst (LoadHeader (traps t pus s)))) = int (length pus)
         \<and> uint (m_uNextReport (fst (LoadHeader (traps t pus s)))) = int (length pus)"
proof -
  have "\<exists>a'. fst (LoadHeader (traps t pus s)) = \<lparr>m_uSavedReports = a', m_uNextReport = a'\<rparr>
              \<and> uint a' = uint (0 :: 8 word) + int (length pus)"
    using assms by (intro traps_below_capacity) simp_all
  then show ?thesis by auto
qed

lemma traps_append: "traps t (pus @ pus') s = traps t pus' (traps t pus s)"
  by (induction pus arbitrary: s) simp_all

lemma WatchdogInterruptHandler_log:
  fixes s :: machine and t :: mcu and pu :: "nat \<Rightarrow> uint8_t"
  defines "b \<equiv> c_nBaseAddress (ApplicationMonitor s)"
  defines "x \<equiv> m_uNextReport (fst (LoadHeader s))"
  defines "r \<equiv> (m_CrashReport (ApplicationMonitor s))\<lparr>m_auAddress := map pu [0..<PROGRAM_COUNTER_SIZE t]\<rparr>"
  shows "\<exists>hs. length hs = sizeof_CApplicationMonitorHeader \<and>
           eeprom_log (WatchdogInterruptHandler t pu s) =
             eeprom_log s @ [EepromRead b, EepromRead (b + 1)]
             @ map (\<lambda>k. EepromWrite
                     (b + of_nat (sizeof_CApplicationMonitorHeader + unat x * sizeof_CCrashReport t + k))
                     (bytes_of_CrashReport r ! k)) [0..<sizeof_CCrashReport t]
             @ map (\<lambda>k. EepromWrite (b + of_nat k) (hs ! k)) [0..<sizeof_CApplicationMonitorHeader]"
proof -
  let ?A = "GetAddressForReport t (ucast x) s"
  let ?s2 = "(snd (LoadHeader s))\<lparr>ApplicationMonitor := (ApplicationMonitor s)\<lparr>m_CrashReport := r\<rparr>\<rparr>"
  have len: "length (bytes_of_CrashReport r) = sizeof_CCrashReport t"
    by (rule length_bytes_of_CrashReport) (simp add: r_def)
  have A2: "GetAddressForReport t (ucast x) ?s2 = ?A"
    by (simp add: GetAddressForReport_def)
  define h2 where "h2 =
     (if c_nMaxEntries (ApplicationMonitor s) \<le>s ucast (x + 1)
      then (fst (LoadHeader s))\<lparr>m_uNextReport := 0\<rparr>
      else (fst (LoadHeader s))\<lparr>m_uNextReport := x + 1,
             m_uSavedReports := m_uSavedReports (fst (LoadHeader s)) + 1\<rparr>)"
  have "WatchdogInterruptHandler t pu s
          = WriteBlock b (bytes_of_Header h2)
              (WriteBlock (GetAddressForReport t (ucast x) ?s2) (bytes_of_CrashReport r) ?s2)"
    unfolding WatchdogInterruptHandler_unfold h2_def x_def r_def b_def
    by (simp add: Let_def SaveHeader_def SaveCurrentReport_def WriteBlock_monitor LoadHeader_snd)
  then have s': "WatchdogInterruptHandler t pu s
          = WriteBlock b (bytes_of_Header h2) (WriteBlock ?A (bytes_of_CrashReport r) ?s2)"
    unfolding A2 .
  have "ucast x <s c_nMaxEntries (ApplicationMonitor s) \<or> x = 0"
    unfolding x_def LoadHeader_fst by (rule validated_next)
  then have A: "?A = b + of_nat (sizeof_CApplicationMonitorHeader + unat x * sizeof_CCrashReport t)"
    unfolding b_def by (rule GetAddressForReport_slot)
  have Ak: "?A + of_nat k
             = b + of_nat (sizeof_CApplicationMonitorHeader + unat x * sizeof_CCrashReport t + k)" for k
    unfolding A by (simp add: add.assoc)
  have l2: "eeprom_log ?s2 = eeprom_log s @ [EepromRead b, EepromRead (b + 1)]"
    by (simp add: LoadHeader_snd b_def)
  have lh: "length (bytes_of_Header h2) = sizeof_CApplicationMonitorHeader"
    by (simp add: bytes_of_Header_def sizeof_CApplicationMonitorHeader_def)
  have "eeprom_log (WatchdogInterruptHandler t pu s) =
             eeprom_log s @ [EepromRead b, EepromRead (b + 1)]
             @ map (\<lambda>k. EepromWrite
                     (b + of_nat (sizeof_CApplicationMonitorHeader + unat x * sizeof_CCrashReport t + k))
                     (bytes_of_CrashReport r ! k)) [0..<sizeof_CCrashReport t]
             @ map (\<lambda>k. EepromWrite (b + of_nat k) (bytes_of_Header h2 ! k))
                 [0..<sizeof_CApplicationMonitorHeader]"
    unfolding s' WriteBlock_log l2 len lh Ak by simp
  with lh show ?thesis by blast
qed

section \<open>The loop of Dump\<close>

lemma LoadReport_snd:
  "snd (LoadReport t i s) =
     s\<lparr>eeprom_log := eeprom_log s @
         map (\<lambda>k. EepromRead (GetAddressForReport t i s + of_nat k)) [0..<sizeof_CCrashReport t]\<rparr>"
  by (simp add: LoadReport_def Let_def split_beta ReadBlock_snd)

lemma LoadReport_fst_cong:
  "eeprom s' = eeprom s \<Longrightarrow> ApplicationMonitor s' = ApplicationMonitor s \<Longrightarrow>
   fst (LoadReport t i s') = fst (LoadReport t i s)"
  by (simp add: LoadReport_fst ReadBlock_fst GetAddressForReport_def)

lemma unat_ucast_uint8_uint32: "unat (ucast (x :: 8 word) :: 32 word) = unat x"
  by transfer simp

lemma unat_succ_uint8: "(u :: 8 word) < v \<Longrightarrow> unat (u + 1) = Suc (unat u)"
proof -
  assume lt: "u < v"
  then have "u \<noteq> - 1" by (metis word_order.extremum_strict)
  then have "1 + u \<noteq> 0" by (metis add.commute add_eq_0_iff2)
  then show ?thesis by (simp add: unatSuc add.commute)
qed

text \<open>The calls one pass of the loop makes for report number \<open>k\<close>.\<close>

lemma Dump_loop_step:
  assumes "uReport < m_uSavedReports Header"
  shows "Dump_loop t Header uReport d s =
     Dump_loop t Header (uReport + 1)
       (d @ (let Report = fst (LoadReport t (ucast uReport) s);
                 uAddress = uint32_of_bytes (take (PROGRAM_COUNTER_SIZE t) (m_auAddress Report))
             in [PrintNum (unat uReport) 10,
                 PrintStr '': word-address=0x'', PrintNum (unat uAddress) 16,
                 PrintStr '': byte-address=0x'', PrintNum (unat (uAddress * 2)) 16,
                 PrintStr '', data=0x'', PrintNum (unat (m_uData Report)) 16, PrintLn]))
       (snd (LoadReport t (ucast uReport) s))"
  using assms by (subst Dump_loop.simps) (simp add: split_beta Let_def PrintValue_def)

lemma Dump_loop_done:
  "\<not> uReport < m_uSavedReports Header \<Longrightarrow> Dump_loop t Header uReport d s = (d, s)"
  by (subst Dump_loop.simps) simp

lemma Dump_loop_fst:
  assumes "eeprom s = eeprom s0" and "ApplicationMonitor s = ApplicationMonitor s0"
  shows "fst (Dump_loop t Header uReport d s) =
     d @ concat (map (\<lambda>k.
         (let Report = fst (LoadReport t (of_nat k) s0);
              uAddress = uint32_of_bytes (take (PROGRAM_COUNTER_SIZE t) (m_auAddress Report))
          in [PrintNum k 10,
              PrintStr '': word-address=0x'', PrintNum (unat uAddress) 16,
              PrintStr '': byte-address=0x'', PrintNum (unat (uAddress * 2)) 16,
              PrintStr '', data=0x'', PrintNum (unat (m_uData Report)) 16, PrintLn]))
       [unat uReport..<unat (m_uSavedReports Header)])"
    (is "_ = d @ concat (map ?line _)")
  using assms
proof (induction n \<equiv> "unat (m_uSavedReports Header) - unat uReport" arbitrary: uReport d s)
  case 0
  then have le: "unat (m_uSavedReports Header) \<le> unat uReport"
    by simp
  then have "\<not> uReport < m_uSavedReports Header"
    by (simp add: word_less_nat_alt)
  then have "Dump_loop t Header uReport d s = (d, s)"
    by (rule Dump_loop_done)
  then show ?case
    using le by simp
next
  case (Suc n)
  from Suc.hyps(2) have ult: "unat uReport < unat (m_uSavedReports Header)"
    by simp
  then have lt: "uReport < m_uSavedReports Header"
    by (simp add: word_less_nat_alt)
  have su: "unat (uReport + 1) = Suc (unat uReport)"
    using lt by (rule unat_succ_uint8)
  let ?s1 = "snd (LoadReport t (ucast uReport) s)"
  have s1: "eeprom ?s1 = eeprom s0" "ApplicationMonitor ?s1 = ApplicationMonitor s0"
    using Suc.prems by (simp_all add: LoadReport_snd)
  have m: "n = unat (m_uSavedReports Header) - unat (uReport + 1)"
    using Suc.hyps(2) su by simp
  have ld: "fst (LoadReport t (ucast uReport) s) = fst (LoadReport t (ucast uReport) s0)"
    using Suc.prems by (rule LoadReport_fst_cong)
  have line: "(let Report = fst (LoadReport t (ucast uReport) s);
                 uAddress = uint32_of_bytes (take (PROGRAM_COUNTER_SIZE t) (m_auAddress Report))
             in [PrintNum (unat uReport) 10,
                 PrintStr '': word-address=0x'', PrintNum (unat uAddress) 16,
                 PrintStr '': byte-address=0x'', PrintNum (unat (uAddress * 2)) 16,
                 PrintStr '', data=0x'', PrintNum (unat (m_uData Report)) 16, PrintLn])
              = ?line (unat uReport)"
    unfolding ld by simp
  have "fst (Dump_loop t Header uReport d s)
          = fst (Dump_loop t Header (uReport + 1) (d @ ?line (unat uReport)) ?s1)"
    unfolding Dump_loop_step [OF lt] line ..
  also have "\<dots> = (d @ ?line (unat uReport))
                    @ concat (map ?line [unat (uReport + 1)..<unat (m_uSavedReports Header)])"
    using m s1 by (rule Suc.hyps(1))
  also have "\<dots> = d @ concat (map ?line [unat uReport..<unat (m_uSavedReports Header)])"
    unfolding su upt_conv_Cons [OF ult] by simp
  finally show ?case .
qed

section \<open>Header validation\<close>

text \<open>
  Claim C3. Whatever the two header bytes in the EEPROM are, the header that
  \<^verbatim>\<open>LoadHeader\<close> returns is the raw header with \<^verbatim>\<open>m_uSavedReports\<close> set to 0 when it is
  the erased byte \<open>0xff\<close>, set to \<^verbatim>\<open>c_nMaxEntries\<close> (as the assignment to the
  \<^verbatim>\<open>uint8_t\<close> field stores it) when it is larger than \<^verbatim>\<open>c_nMaxEntries\<close>, and with
  \<^verbatim>\<open>m_uNextReport\<close> set to 0 when it is at least \<^verbatim>\<open>c_nMaxEntries\<close>; every other value
  is kept. When \<^verbatim>\<open>c_nMaxEntries\<close> is not negative the stored value is \<^verbatim>\<open>c_nMaxEntries\<close>
  itself, so the same holds for the fields read as numbers.
\<close>

theorem LoadHeader_sanitation:
  assumes "b = c_nBaseAddress (ApplicationMonitor s)"
    and "n = c_nMaxEntries (ApplicationMonitor s)"
    and "saved = eeprom s b"
    and "nxt = eeprom s (b + 1)"
  shows "fst (LoadHeader s) =
           \<lparr>m_uSavedReports = (if saved = 0xff then 0
                               else if n <s ucast saved then ucast n
                               else saved),
            m_uNextReport = (if n \<le>s ucast nxt then 0 else nxt)\<rparr>
         \<and> (0 \<le>s n \<longrightarrow>
              uint (m_uSavedReports (fst (LoadHeader s))) =
                (if uint saved = 255 then 0
                 else if sint n < uint saved then sint n
                 else uint saved)
              \<and> uint (m_uNextReport (fst (LoadHeader s))) =
                (if sint n \<le> uint nxt then 0 else uint nxt))"
proof -
  have eq: "fst (LoadHeader s) =
           \<lparr>m_uSavedReports = (if saved = 0xff then 0
                               else if n <s ucast saved then ucast n
                               else saved),
            m_uNextReport = (if n \<le>s ucast nxt then 0 else nxt)\<rparr>"
    using assms by (simp add: LoadHeader_fst LoadHeader_validate_def Let_def)
  have sv: "(saved = 0xff) = (uint saved = 255)"
    by (simp add: word_uint_eq_iff)
  have lt: "uint saved < 256" using uint_bounded [of saved] by simp
  have "uint (ucast n :: 8 word) = sint n" if "0 \<le>s n" "n <s ucast saved"
    using that lt by (intro uint_ucast_int16) (auto simp: word_sle_eq word_sless_alt promote_uint8)
  then have num: "0 \<le>s n \<longrightarrow>
              uint (m_uSavedReports (fst (LoadHeader s))) =
                (if uint saved = 255 then 0
                 else if sint n < uint saved then sint n
                 else uint saved)
              \<and> uint (m_uNextReport (fst (LoadHeader s))) =
                (if sint n \<le> uint nxt then 0 else uint nxt)"
    unfolding eq using sv
    by (auto simp: word_sle_eq word_sless_alt promote_uint8)
  show ?thesis by (rule conjI [OF eq num])
qed

theorem LoadHeader_sanitation_witness:
  "(500 :: int16_t) = c_nBaseAddress (ApplicationMonitor (boot OtherAVR 500 10 erased))
   \<and> (10 :: int16_t) = c_nMaxEntries (ApplicationMonitor (boot OtherAVR 500 10 erased))
   \<and> (0xff :: uint8_t) = eeprom (boot OtherAVR 500 10 erased) 500
   \<and> (0xff :: uint8_t) = eeprom (boot OtherAVR 500 10 erased) (500 + 1)
   \<and> (0 :: int16_t) \<le>s 10
   \<and> fst (LoadHeader (boot OtherAVR 500 10 erased)) = \<lparr>m_uSavedReports = 0, m_uNextReport = 0\<rparr>
   \<and> uint (m_uSavedReports (fst (LoadHeader (boot OtherAVR 500 10 erased)))) = 0
   \<and> uint (m_uNextReport (fst (LoadHeader (boot OtherAVR 500 10 erased)))) = 0"
proof -
  have h1: "(500 :: int16_t) = c_nBaseAddress (ApplicationMonitor (boot OtherAVR 500 10 erased))"
    and h2: "(10 :: int16_t) = c_nMaxEntries (ApplicationMonitor (boot OtherAVR 500 10 erased))"
    and h3: "(0xff :: uint8_t) = eeprom (boot OtherAVR 500 10 erased) 500"
    and h4: "(0xff :: uint8_t) = eeprom (boot OtherAVR 500 10 erased) (500 + 1)"
    and h5: "(0 :: int16_t) \<le>s 10"
    by (simp_all add: eval_simps)
  show ?thesis
    using h1 h2 h3 h4 h5 LoadHeader_sanitation [OF h1 h2 h3 h4]
    by (simp add: word_sle_eq word_sless_alt)
qed

text \<open>
  Claim C4 states that the validation is idempotent for every header and every configured
  \<^verbatim>\<open>c_nMaxEntries\<close>. The constructor accepts any \<^verbatim>\<open>int\<close>, and for a negative one the
  claim fails: with \<^verbatim>\<open>c_nMaxEntries = -1\<close> the erased header \<open>(0xff, 0xff)\<close> is validated
  to \<open>(0, 0)\<close>, and validating that again gives \<open>(0xff, 0)\<close>, because \<open>0 > -1\<close> and the
  low byte of \<open>-1\<close> is \<open>0xff\<close>.
\<close>

theorem LoadHeader_validate_not_idempotent:
  "LoadHeader_validate (- 1)
     (LoadHeader_validate (- 1) \<lparr>m_uSavedReports = 0xff, m_uNextReport = 0xff\<rparr>)
     \<noteq> LoadHeader_validate (- 1) \<lparr>m_uSavedReports = 0xff, m_uNextReport = 0xff\<rparr>"
  by (simp add: LoadHeader_validate_def Let_def unsigned_minus_1_eq_mask mask_eq_exp_minus_1)

text \<open>
  Claim C4, amended. For every header and every \<^verbatim>\<open>c_nMaxEntries\<close> that is not negative,
  validating twice gives the same header as validating once.
\<close>

theorem LoadHeader_validate_idempotent:
  assumes "0 \<le>s n"
  shows "LoadHeader_validate n (LoadHeader_validate n h) = LoadHeader_validate n h"
proof -
  have n0: "0 \<le> sint n" using assms by (simp add: word_sle_eq)
  have b: "uint (m_uSavedReports h) < 256" using uint_bounded [of "m_uSavedReports h"] by simp
  have clamp: "uint (ucast n :: 8 word) = sint n" if "sint n < uint (m_uSavedReports h)"
    using that n0 b by (intro uint_ucast_int16) auto
  have ne: "(ucast n :: 8 word) \<noteq> 0xff" if "sint n < uint (m_uSavedReports h)"
  proof
    assume "(ucast n :: 8 word) = 0xff"
    then have "uint (ucast n :: 8 word) = 255" by simp
    with clamp [OF that] that b show False by simp
  qed
  show ?thesis
    using n0 clamp ne
    by (auto simp add: LoadHeader_validate_def Let_def word_sle_eq word_sless_alt promote_uint8)
qed

theorem LoadHeader_validate_idempotent_witness:
  "(0 :: int16_t) \<le>s 10
   \<and> LoadHeader_validate 10
         (LoadHeader_validate 10 \<lparr>m_uSavedReports = 0xff, m_uNextReport = 0xff\<rparr>)
       = LoadHeader_validate 10 \<lparr>m_uSavedReports = 0xff, m_uNextReport = 0xff\<rparr>
   \<and> LoadHeader_validate 10 \<lparr>m_uSavedReports = 0xff, m_uNextReport = 0xff\<rparr>
       = \<lparr>m_uSavedReports = 0, m_uNextReport = 0\<rparr>"
proof -
  have h: "(0 :: int16_t) \<le>s 10" by (simp add: word_sle_eq)
  have v: "LoadHeader_validate 10 \<lparr>m_uSavedReports = 0xff, m_uNextReport = 0xff\<rparr>
             = \<lparr>m_uSavedReports = 0, m_uNextReport = 0\<rparr>"
    by (simp add: LoadHeader_validate_def Let_def word_sle_eq word_sless_alt)
  show ?thesis
    using h v LoadHeader_validate_idempotent [OF h, of "\<lparr>m_uSavedReports = 0xff, m_uNextReport = 0xff\<rparr>"]
    by blast
qed

section \<open>Slot addresses\<close>

text \<open>
  Claim C5 states the layout for every \<^verbatim>\<open>c_nMaxEntries > 0\<close>. The address is computed in
  16 bits, so for a log larger than the address space it wraps: with base address 500,
  \<^verbatim>\<open>c_nMaxEntries = 32767\<close> and 6-byte reports, the product \<open>21845 * 6 = 131070\<close> is
  \<open>65534\<close> modulo \<open>2 ^ 16\<close>, and slot 21845 gets the address \<open>502 + 65534 = 500\<close> modulo
  \<open>2 ^ 16\<close>: the first byte of the header.
\<close>

theorem GetAddressForReport_wraps:
  "(0 :: int16_t) <s c_nMaxEntries (ApplicationMonitor (boot OtherAVR 500 32767 erased))
   \<and> (0 :: int16_t) \<le>s 21845
   \<and> (21845 :: int16_t) <s c_nMaxEntries (ApplicationMonitor (boot OtherAVR 500 32767 erased))
   \<and> GetAddressForReport OtherAVR 21845 (boot OtherAVR 500 32767 erased)
       = c_nBaseAddress (ApplicationMonitor (boot OtherAVR 500 32767 erased))
   \<and> \<not> unat (c_nBaseAddress (ApplicationMonitor (boot OtherAVR 500 32767 erased)))
           + sizeof_CApplicationMonitorHeader
         \<le> unat (GetAddressForReport OtherAVR 21845 (boot OtherAVR 500 32767 erased))"
  by (simp add: eval_simps GetAddressForReport_def)

text \<open>
  Claim C5, amended. Let the log region fit in the address space: the base address, read as
  an unsigned address, plus \<^verbatim>\<open>sizeof(CApplicationMonitorHeader)\<close> plus \<^verbatim>\<open>c_nMaxEntries\<close>
  times \<^verbatim>\<open>sizeof(CCrashReport)\<close> is at most \<open>2 ^ 16\<close>. Then for all slots \<open>i\<close> and \<open>j\<close>
  with \<open>0 \<le> i, j < c_nMaxEntries\<close>: the address of slot \<open>i\<close> is the base address plus the
  size of the header plus \<open>i\<close> times the size of a report, as a 16-bit value and as a number;
  if \<open>i < j\<close>, slot \<open>i\<close> ends at or before the start of slot \<open>j\<close>; slot \<open>i\<close> starts at or
  after the end of the header and ends inside the log region.
\<close>

theorem GetAddressForReport_layout:
  assumes i: "0 \<le>s i" "i <s c_nMaxEntries (ApplicationMonitor s)"
    and j: "0 \<le>s j" "j <s c_nMaxEntries (ApplicationMonitor s)"
    and fit: "unat (c_nBaseAddress (ApplicationMonitor s)) + sizeof_CApplicationMonitorHeader
               + nat (sint (c_nMaxEntries (ApplicationMonitor s))) * sizeof_CCrashReport t \<le> 2 ^ 16"
  shows "GetAddressForReport t i s =
           c_nBaseAddress (ApplicationMonitor s) + of_nat sizeof_CApplicationMonitorHeader
             + i * of_nat (sizeof_CCrashReport t)
         \<and> unat (GetAddressForReport t i s) =
             unat (c_nBaseAddress (ApplicationMonitor s)) + sizeof_CApplicationMonitorHeader
               + nat (sint i) * sizeof_CCrashReport t
         \<and> (i <s j \<longrightarrow>
               unat (GetAddressForReport t i s) + sizeof_CCrashReport t
                 \<le> unat (GetAddressForReport t j s))
         \<and> unat (c_nBaseAddress (ApplicationMonitor s)) + sizeof_CApplicationMonitorHeader
               \<le> unat (GetAddressForReport t i s)
         \<and> unat (GetAddressForReport t i s) + sizeof_CCrashReport t
               \<le> unat (c_nBaseAddress (ApplicationMonitor s)) + sizeof_CApplicationMonitorHeader
                   + nat (sint (c_nMaxEntries (ApplicationMonitor s))) * sizeof_CCrashReport t"
proof -
  let ?b = "unat (c_nBaseAddress (ApplicationMonitor s))"
  let ?n = "nat (sint (c_nMaxEntries (ApplicationMonitor s)))"
  let ?k = "sizeof_CCrashReport t"
  have addr: "unat (GetAddressForReport t x s) = ?b + sizeof_CApplicationMonitorHeader + nat (sint x) * ?k"
    if x: "0 \<le>s x" "x <s c_nMaxEntries (ApplicationMonitor s)" for x
  proof -
    have ux: "unat x = nat (sint x)" using x by (simp add: unat_int16_nonneg word_sle_eq)
    have "nat (sint x) < ?n" using x by (simp add: word_sle_eq word_sless_alt)
    then have "Suc (nat (sint x)) \<le> ?n" by (rule Suc_leI)
    then have "Suc (nat (sint x)) * ?k \<le> ?n * ?k" by (rule mult_le_mono1)
    then have lt: "?b + sizeof_CApplicationMonitorHeader + nat (sint x) * ?k < 2 ^ 16"
      using fit by (simp add: sizeof_CCrashReport_def)
    have "word_of_nat (?b + sizeof_CApplicationMonitorHeader + nat (sint x) * ?k)
            = GetAddressForReport t x s"
      using GetAddressForReport_in_range [OF x(2), of t] by (simp only: ux)
    then show ?thesis
      by (rule of_nat_inverse) (use lt in simp)
  qed
  have e1: "GetAddressForReport t i s =
           c_nBaseAddress (ApplicationMonitor s) + of_nat sizeof_CApplicationMonitorHeader
             + i * of_nat (sizeof_CCrashReport t)"
    using i by (simp add: GetAddressForReport_def Let_def)
  have mono: "unat (GetAddressForReport t i s) + ?k \<le> unat (GetAddressForReport t j s)" if "i <s j"
  proof -
    have "nat (sint i) < nat (sint j)" using that i by (simp add: word_sle_eq word_sless_alt)
    then have "Suc (nat (sint i)) \<le> nat (sint j)" by (rule Suc_leI)
    then have "Suc (nat (sint i)) * ?k \<le> nat (sint j) * ?k" by (rule mult_le_mono1)
    then show ?thesis unfolding addr [OF i] addr [OF j] by simp
  qed
  have top: "unat (GetAddressForReport t i s) + ?k \<le> ?b + sizeof_CApplicationMonitorHeader + ?n * ?k"
  proof -
    have "nat (sint i) < ?n" using i by (simp add: word_sle_eq word_sless_alt)
    then have "Suc (nat (sint i)) \<le> ?n" by (rule Suc_leI)
    then have "Suc (nat (sint i)) * ?k \<le> ?n * ?k" by (rule mult_le_mono1)
    then show ?thesis unfolding addr [OF i] by simp
  qed
  show ?thesis using e1 addr [OF i] mono top by simp
qed

theorem GetAddressForReport_layout_witness:
  "(0 :: int16_t) \<le>s 3 \<and> 3 <s c_nMaxEntries (ApplicationMonitor (boot OtherAVR 500 10 erased))
   \<and> (0 :: int16_t) \<le>s 4 \<and> 4 <s c_nMaxEntries (ApplicationMonitor (boot OtherAVR 500 10 erased))
   \<and> unat (c_nBaseAddress (ApplicationMonitor (boot OtherAVR 500 10 erased)))
         + sizeof_CApplicationMonitorHeader
         + nat (sint (c_nMaxEntries (ApplicationMonitor (boot OtherAVR 500 10 erased))))
           * sizeof_CCrashReport OtherAVR \<le> 2 ^ 16
   \<and> (3 :: int16_t) <s 4
   \<and> unat (GetAddressForReport OtherAVR 3 (boot OtherAVR 500 10 erased)) = 520
   \<and> unat (GetAddressForReport OtherAVR 3 (boot OtherAVR 500 10 erased)) + sizeof_CCrashReport OtherAVR
        \<le> unat (GetAddressForReport OtherAVR 4 (boot OtherAVR 500 10 erased))"
proof -
  have h1: "(0 :: int16_t) \<le>s 3"
    and h2: "3 <s c_nMaxEntries (ApplicationMonitor (boot OtherAVR 500 10 erased))"
    and h3: "(0 :: int16_t) \<le>s 4"
    and h4: "4 <s c_nMaxEntries (ApplicationMonitor (boot OtherAVR 500 10 erased))"
    and h5: "unat (c_nBaseAddress (ApplicationMonitor (boot OtherAVR 500 10 erased)))
         + sizeof_CApplicationMonitorHeader
         + nat (sint (c_nMaxEntries (ApplicationMonitor (boot OtherAVR 500 10 erased))))
           * sizeof_CCrashReport OtherAVR \<le> 2 ^ 16"
    and h6: "(3 :: int16_t) <s 4"
    by (simp_all add: eval_simps)
  have v: "unat (c_nBaseAddress (ApplicationMonitor (boot OtherAVR 500 10 erased)))
             + sizeof_CApplicationMonitorHeader + nat (sint (3 :: int16_t)) * sizeof_CCrashReport OtherAVR
           = 520"
    by (simp add: eval_simps)
  show ?thesis
    using h1 h2 h3 h4 h5 h6 GetAddressForReport_layout [OF h1 h2 h3 h4 h5] unfolding v
    by blast
qed




section \<open>The diagnostic word\<close>

text \<open>
  Claim C8. After construction \<^verbatim>\<open>GetData\<close> returns 0, and after \<^verbatim>\<open>SetData(v)\<close> it
  returns \<open>v\<close>. Neither the constructor nor \<^verbatim>\<open>SetData\<close> changes the contents of the
  EEPROM or adds an access to its log; \<^verbatim>\<open>GetData\<close> is a function of the machine that
  returns the value only.
\<close>

theorem diagnostic_word:
  "GetData (CApplicationMonitor_ctor nBaseAddress nMaxEntries s) = 0
   \<and> eeprom (CApplicationMonitor_ctor nBaseAddress nMaxEntries s) = eeprom s
   \<and> eeprom_log (CApplicationMonitor_ctor nBaseAddress nMaxEntries s) = eeprom_log s
   \<and> GetData (SetData v s) = v
   \<and> eeprom (SetData v s) = eeprom s
   \<and> eeprom_log (SetData v s) = eeprom_log s"
  by (simp add: GetData_def SetData_def CApplicationMonitor_ctor_def)

theorem diagnostic_word_witness:
  "GetData (boot OtherAVR 500 10 erased) = 0
   \<and> eeprom_log (boot OtherAVR 500 10 erased) = []
   \<and> GetData (SetData 0xCAFEBABE (boot OtherAVR 500 10 erased)) = 0xCAFEBABE
   \<and> eeprom (SetData 0xCAFEBABE (boot OtherAVR 500 10 erased)) = eeprom (boot OtherAVR 500 10 erased)
   \<and> eeprom_log (SetData 0xCAFEBABE (boot OtherAVR 500 10 erased)) = []"
proof -
  let ?raw = "\<lparr>ApplicationMonitor = zeroed_storage OtherAVR, eeprom = erased, eeprom_log = []\<rparr>"
  have b: "boot OtherAVR 500 10 erased = CApplicationMonitor_ctor 500 10 ?raw"
    by (simp add: boot_def)
  have l: "eeprom_log ?raw = []"
    by simp
  show ?thesis
    using diagnostic_word [of 500 10 ?raw "0xCAFEBABE"]
      diagnostic_word [of 500 10 "boot OtherAVR 500 10 erased" "0xCAFEBABE"]
    unfolding b [symmetric] l by simp
qed

section \<open>Reports in the EEPROM\<close>

text \<open>
  Claim C2. Let the in-memory report hold \<^verbatim>\<open>PROGRAM_COUNTER_SIZE\<close> address bytes and let
  \<^verbatim>\<open>SaveCurrentReport(i)\<close> write it to slot \<open>i\<close> (in range or not). On every machine that
  has the resulting EEPROM contents and the same base address and capacity, whatever its
  in-memory report is (after a reset it is zeroed), \<^verbatim>\<open>LoadReport(i)\<close> returns the
  \<^verbatim>\<open>m_uData\<close> that was written and the address bytes that were written in reverse order,
  which for 2 or 3 bytes is the exchange of the first and the last byte. On a 2-byte target
  the stored bytes \<open>[0x12, 0x34]\<close> come back as the bytes of the little-endian number
  \<open>0x1234\<close>, as \<^verbatim>\<open>Dump\<close> reads them.
\<close>

theorem report_roundtrip:
  assumes len: "length (m_auAddress (m_CrashReport (ApplicationMonitor s))) = PROGRAM_COUNTER_SIZE t"
    and mem: "eeprom s' = eeprom (SaveCurrentReport t i s)"
    and base: "c_nBaseAddress (ApplicationMonitor s') = c_nBaseAddress (ApplicationMonitor s)"
    and cap: "c_nMaxEntries (ApplicationMonitor s') = c_nMaxEntries (ApplicationMonitor s)"
  shows "m_uData (fst (LoadReport t i s')) = m_uData (m_CrashReport (ApplicationMonitor s))
         \<and> m_auAddress (fst (LoadReport t i s'))
           = rev (m_auAddress (m_CrashReport (ApplicationMonitor s)))
         \<and> (t = OtherAVR \<longrightarrow> m_auAddress (m_CrashReport (ApplicationMonitor s)) = [0x12, 0x34] \<longrightarrow>
              uint32_of_bytes (take (PROGRAM_COUNTER_SIZE t) (m_auAddress (fst (LoadReport t i s'))))
                = 0x1234)"
proof -
  let ?r = "m_CrashReport (ApplicationMonitor s)"
  let ?w = "SaveCurrentReport t i s"
  have cfg: "c_nBaseAddress (ApplicationMonitor s') = c_nBaseAddress (ApplicationMonitor ?w)"
    "c_nMaxEntries (ApplicationMonitor s') = c_nMaxEntries (ApplicationMonitor ?w)"
    using base cap by (simp_all add: SaveCurrentReport_def WriteBlock_monitor)
  have "fst (LoadReport t i s') = fst (LoadReport t i ?w)"
    using mem cfg by (rule LoadReport_fst_layout)
  then have ld: "fst (LoadReport t i s') = ?r\<lparr>m_auAddress := rev (m_auAddress ?r)\<rparr>"
    unfolding SaveCurrentReport_LoadReport [OF len] .
  show ?thesis unfolding ld by auto
qed

theorem report_roundtrip_witness:
  "length (m_auAddress (m_CrashReport (ApplicationMonitor
      (boot OtherAVR 500 10 erased
        \<lparr>ApplicationMonitor := \<lparr>c_nBaseAddress = 500, c_nMaxEntries = 10,
            m_CrashReport = \<lparr>m_auAddress = [0x12, 0x34], m_uData = 0xCAFEBABE\<rparr>\<rparr>\<rparr>))))
     = PROGRAM_COUNTER_SIZE OtherAVR
   \<and> m_CrashReport (ApplicationMonitor (boot OtherAVR 500 10
         (eeprom (SaveCurrentReport OtherAVR 3
           (boot OtherAVR 500 10 erased
             \<lparr>ApplicationMonitor := \<lparr>c_nBaseAddress = 500, c_nMaxEntries = 10,
                 m_CrashReport = \<lparr>m_auAddress = [0x12, 0x34], m_uData = 0xCAFEBABE\<rparr>\<rparr>\<rparr>)))))
       = \<lparr>m_auAddress = [0, 0], m_uData = 0\<rparr>
   \<and> fst (LoadReport OtherAVR 3 (boot OtherAVR 500 10
         (eeprom (SaveCurrentReport OtherAVR 3
           (boot OtherAVR 500 10 erased
             \<lparr>ApplicationMonitor := \<lparr>c_nBaseAddress = 500, c_nMaxEntries = 10,
                 m_CrashReport = \<lparr>m_auAddress = [0x12, 0x34], m_uData = 0xCAFEBABE\<rparr>\<rparr>\<rparr>)))))
       = \<lparr>m_auAddress = [0x34, 0x12], m_uData = 0xCAFEBABE\<rparr>
   \<and> uint32_of_bytes (take (PROGRAM_COUNTER_SIZE OtherAVR) (m_auAddress (fst
         (LoadReport OtherAVR 3 (boot OtherAVR 500 10
           (eeprom (SaveCurrentReport OtherAVR 3
             (boot OtherAVR 500 10 erased
               \<lparr>ApplicationMonitor := \<lparr>c_nBaseAddress = 500, c_nMaxEntries = 10,
                   m_CrashReport = \<lparr>m_auAddress = [0x12, 0x34], m_uData = 0xCAFEBABE\<rparr>\<rparr>\<rparr>)))))))) = 0x1234"
proof -
  let ?crashing = "boot OtherAVR 500 10 erased
        \<lparr>ApplicationMonitor := \<lparr>c_nBaseAddress = 500, c_nMaxEntries = 10,
            m_CrashReport = \<lparr>m_auAddress = [0x12, 0x34], m_uData = 0xCAFEBABE\<rparr>\<rparr>\<rparr>"
  let ?rebooted = "boot OtherAVR 500 10 (eeprom (SaveCurrentReport OtherAVR 3 ?crashing))"
  have h: "length (m_auAddress (m_CrashReport (ApplicationMonitor ?crashing))) = PROGRAM_COUNTER_SIZE OtherAVR"
    by simp
  have mem: "eeprom ?rebooted = eeprom (SaveCurrentReport OtherAVR 3 ?crashing)"
    by (simp add: boot_simps)
  have base: "c_nBaseAddress (ApplicationMonitor ?rebooted) = c_nBaseAddress (ApplicationMonitor ?crashing)"
    and cap: "c_nMaxEntries (ApplicationMonitor ?rebooted) = c_nMaxEntries (ApplicationMonitor ?crashing)"
    by (simp_all add: boot_simps)
  have ram: "m_CrashReport (ApplicationMonitor ?rebooted) = \<lparr>m_auAddress = [0, 0], m_uData = 0\<rparr>"
    by (simp add: boot_simps eval_nat_numeral)
  have a: "m_auAddress (m_CrashReport (ApplicationMonitor ?crashing)) = [0x12, 0x34]"
    and d: "m_uData (m_CrashReport (ApplicationMonitor ?crashing)) = 0xCAFEBABE"
    by simp_all
  have "fst (LoadReport OtherAVR 3 ?rebooted) = \<lparr>m_auAddress = [0x34, 0x12], m_uData = 0xCAFEBABE\<rparr>"
    using report_roundtrip [OF h mem base cap] unfolding a d
    by (cases "fst (LoadReport OtherAVR 3 ?rebooted)") simp
  moreover have "uint32_of_bytes (take (PROGRAM_COUNTER_SIZE OtherAVR)
      (m_auAddress (fst (LoadReport OtherAVR 3 ?rebooted)))) = 0x1234"
    using report_roundtrip [OF h mem base cap] a by blast
  ultimately show ?thesis using h ram by blast
qed

section \<open>What a trap writes\<close>

text \<open>
  Claim C6. The handler changes nothing of the in-memory report but its address bytes, so
  \<^verbatim>\<open>GetData\<close> returns after the trap what \<^verbatim>\<open>SetData\<close> stored before it; and the report
  that \<^verbatim>\<open>LoadReport\<close> reads back from the slot the handler wrote (the validated
  \<^verbatim>\<open>m_uNextReport\<close> of the header it loaded) carries that value as its \<^verbatim>\<open>m_uData\<close>.
\<close>

theorem WatchdogInterruptHandler_userData:
  "m_uData (fst (LoadReport t (ucast (m_uNextReport (fst (LoadHeader (SetData v s)))))
                   (WatchdogInterruptHandler t pu (SetData v s)))) = v
   \<and> GetData (WatchdogInterruptHandler t pu (SetData v s)) = v
   \<and> m_CrashReport (ApplicationMonitor (WatchdogInterruptHandler t pu s))
       = (m_CrashReport (ApplicationMonitor s))\<lparr>m_auAddress := map pu [0..<PROGRAM_COUNTER_SIZE t]\<rparr>"
  by (simp add: WatchdogInterruptHandler_saved_report WatchdogInterruptHandler_monitor
        GetData_def SetData_def)

theorem WatchdogInterruptHandler_userData_witness:
  "m_uData (fst (LoadReport OtherAVR 0
      (WatchdogInterruptHandler OtherAVR (\<lambda>i. if i = 0 then 0x12 else 0x34)
         (SetData 0xCAFEBABE (boot OtherAVR 500 10 erased))))) = 0xCAFEBABE
   \<and> GetData (WatchdogInterruptHandler OtherAVR (\<lambda>i. if i = 0 then 0x12 else 0x34)
         (SetData 0xCAFEBABE (boot OtherAVR 500 10 erased))) = 0xCAFEBABE"
proof -
  let ?armed = "SetData 0xCAFEBABE (boot OtherAVR 500 10 erased)"
  have hs: "fst (LoadHeader ?armed) = \<lparr>m_uSavedReports = 0, m_uNextReport = 0\<rparr>"
    unfolding LoadHeader_fst SetData_def
    by (simp add: LoadHeader_validate_def Let_def eval_simps)
  show ?thesis
    using WatchdogInterruptHandler_userData
      [of OtherAVR "0xCAFEBABE" "boot OtherAVR 500 10 erased" "\<lambda>i. if i = 0 then 0x12 else 0x34"]
    unfolding hs by simp
qed

text \<open>
  Claim C9. Let \<^verbatim>\<open>c_nMaxEntries\<close> be at least 1. The slot index the handler passes to
  \<^verbatim>\<open>SaveCurrentReport\<close>, which is the \<^verbatim>\<open>m_uNextReport\<close> of the validated header, is at
  least 0 and less than \<^verbatim>\<open>c_nMaxEntries\<close>. The EEPROM accesses of the handler are the two
  reads of the header, then the writes of the bytes of the report at the consecutive
  addresses that start \<^verbatim>\<open>sizeof(CApplicationMonitorHeader)\<close> plus index times
  \<^verbatim>\<open>sizeof(CCrashReport)\<close> after the base address, then the two writes of the header at the
  base address; and the end of the written slot is no further from the base address than the
  end of the log region, \<^verbatim>\<open>sizeof(CApplicationMonitorHeader)\<close> plus \<^verbatim>\<open>c_nMaxEntries\<close> times
  \<^verbatim>\<open>sizeof(CCrashReport)\<close>.
\<close>

theorem WatchdogInterruptHandler_writes_in_region:
  fixes s :: machine and t :: mcu and pu :: "nat \<Rightarrow> uint8_t"
  defines "b \<equiv> c_nBaseAddress (ApplicationMonitor s)"
  defines "x \<equiv> m_uNextReport (fst (LoadHeader s))"
  defines "r \<equiv> (m_CrashReport (ApplicationMonitor s))\<lparr>m_auAddress := map pu [0..<PROGRAM_COUNTER_SIZE t]\<rparr>"
  assumes n: "1 \<le>s c_nMaxEntries (ApplicationMonitor s)"
  shows "0 \<le>s (ucast x :: int16_t) \<and> ucast x <s c_nMaxEntries (ApplicationMonitor s)
         \<and> (\<exists>hs. length hs = sizeof_CApplicationMonitorHeader \<and>
               eeprom_log (WatchdogInterruptHandler t pu s) =
                 eeprom_log s @ [EepromRead b, EepromRead (b + 1)]
                 @ map (\<lambda>k. EepromWrite
                         (b + of_nat (sizeof_CApplicationMonitorHeader
                                       + unat x * sizeof_CCrashReport t + k))
                         (bytes_of_CrashReport r ! k)) [0..<sizeof_CCrashReport t]
                 @ map (\<lambda>k. EepromWrite (b + of_nat k) (hs ! k)) [0..<sizeof_CApplicationMonitorHeader])
         \<and> sizeof_CApplicationMonitorHeader + unat x * sizeof_CCrashReport t + sizeof_CCrashReport t
              \<le> sizeof_CApplicationMonitorHeader
                  + nat (sint (c_nMaxEntries (ApplicationMonitor s))) * sizeof_CCrashReport t"
proof -
  let ?n = "c_nMaxEntries (ApplicationMonitor s)"
  have n1: "1 \<le> sint ?n" using n by (simp add: word_sle_eq)
  have "ucast x <s ?n \<or> x = 0"
    unfolding x_def LoadHeader_fst by (rule validated_next)
  then have lt: "uint x < sint ?n"
    using n1 by (auto simp add: word_sless_alt promote_uint8)
  have ge: "0 \<le>s (ucast x :: int16_t)"
    by (simp add: word_sle_eq promote_uint8)
  have lt': "ucast x <s ?n"
    using lt by (simp add: word_sless_alt promote_uint8)
  have "unat x < nat (sint ?n)" using lt n1 by (simp add: unat_eq_nat_uint del: nat_uint_eq)
  then have "Suc (unat x) \<le> nat (sint ?n)" by (rule Suc_leI)
  then have "Suc (unat x) * sizeof_CCrashReport t \<le> nat (sint ?n) * sizeof_CCrashReport t"
    by (rule mult_le_mono1)
  then have bound: "sizeof_CApplicationMonitorHeader + unat x * sizeof_CCrashReport t + sizeof_CCrashReport t
              \<le> sizeof_CApplicationMonitorHeader + nat (sint ?n) * sizeof_CCrashReport t"
    by simp
  show ?thesis
    using ge lt' bound WatchdogInterruptHandler_log [of t pu s, folded b_def x_def r_def]
    by blast
qed

theorem WatchdogInterruptHandler_writes_in_region_witness:
  "1 \<le>s c_nMaxEntries (ApplicationMonitor (boot OtherAVR 500 10 erased))
   \<and> (0 :: int16_t) \<le>s ucast (m_uNextReport (fst (LoadHeader (boot OtherAVR 500 10 erased))))
   \<and> (ucast (m_uNextReport (fst (LoadHeader (boot OtherAVR 500 10 erased)))) :: int16_t)
        <s c_nMaxEntries (ApplicationMonitor (boot OtherAVR 500 10 erased))
   \<and> eeprom_log (WatchdogInterruptHandler OtherAVR (\<lambda>i. if i = 0 then 0x12 else 0x34)
                    (boot OtherAVR 500 10 erased))
       = [EepromRead 500, EepromRead 501,
          EepromWrite 502 0x12, EepromWrite 503 0x34,
          EepromWrite 504 0, EepromWrite 505 0, EepromWrite 506 0, EepromWrite 507 0,
          EepromWrite 500 1, EepromWrite 501 1]"
proof -
  let ?s = "boot OtherAVR 500 10 erased"
  have h: "1 \<le>s c_nMaxEntries (ApplicationMonitor ?s)"
    by (simp add: eval_simps)
  have h0: "fst (LoadHeader ?s) = \<lparr>m_uSavedReports = 0, m_uNextReport = 0\<rparr>"
    by (simp add: LoadHeader_fst LoadHeader_validate_def eval_simps)
  have log: "eeprom_log (WatchdogInterruptHandler OtherAVR (\<lambda>i. if i = 0 then 0x12 else 0x34) ?s)
       = [EepromRead 500, EepromRead 501,
          EepromWrite 502 0x12, EepromWrite 503 0x34,
          EepromWrite 504 0, EepromWrite 505 0, EepromWrite 506 0, EepromWrite 507 0,
          EepromWrite 500 1, EepromWrite 501 1]"
    unfolding WatchdogInterruptHandler_unfold h0
    by (simp add: Let_def SaveHeader_def SaveCurrentReport_def LoadHeader_snd
          GetAddressForReport_def bytes_of_CrashReport_def bytes_of_uint32_def
          bytes_of_Header_def eeprom_write_byte_def eval_simps eval_nat_numeral)
  show ?thesis
    using h log WatchdogInterruptHandler_writes_in_region [OF h, of OtherAVR "\<lambda>i. if i = 0 then 0x12 else 0x34"]
    by blast
qed

section \<open>The counters after consecutive traps\<close>

text \<open>
  Claim C1 states that after \<open>k \<le> c_nMaxEntries\<close> traps on an empty log the header has
  \<^verbatim>\<open>m_uSavedReports = k\<close>. The code does not do that for \<open>k = c_nMaxEntries\<close>: the trap
  that writes the last free slot finds \<^verbatim>\<open>m_uNextReport + 1 >= c_nMaxEntries\<close>, resets the
  index and skips the increment of \<^verbatim>\<open>m_uSavedReports\<close>. For every \<^verbatim>\<open>c_nMaxEntries\<close> from 1
  to 255, after exactly \<^verbatim>\<open>c_nMaxEntries\<close> traps on an empty log the header that
  \<^verbatim>\<open>LoadHeader\<close> returns has \<^verbatim>\<open>m_uSavedReports = c_nMaxEntries - 1\<close> and
  \<^verbatim>\<open>m_uNextReport = 0\<close>, although \<^verbatim>\<open>c_nMaxEntries\<close> reports are in the EEPROM.
\<close>

theorem traps_fill_log:
  assumes empty: "fst (LoadHeader s) = \<lparr>m_uSavedReports = 0, m_uNextReport = 0\<rparr>"
    and n: "1 \<le> sint (c_nMaxEntries (ApplicationMonitor s))"
           "sint (c_nMaxEntries (ApplicationMonitor s)) \<le> 255"
    and k: "int (length pus) = sint (c_nMaxEntries (ApplicationMonitor s))"
  shows "uint (m_uSavedReports (fst (LoadHeader (traps t pus s))))
           = sint (c_nMaxEntries (ApplicationMonitor s)) - 1
         \<and> m_uNextReport (fst (LoadHeader (traps t pus s))) = 0"
proof -
  from k n obtain pus' pu where pus: "pus = pus' @ [pu]"
    by (cases pus rule: rev_cases) auto
  let ?s' = "traps t pus' s"
  have len: "int (length pus') + 1 = sint (c_nMaxEntries (ApplicationMonitor s))"
    using k pus by simp
  have "\<exists>a'. fst (LoadHeader ?s') = \<lparr>m_uSavedReports = a', m_uNextReport = a'\<rparr>
              \<and> uint a' = uint (0 :: 8 word) + int (length pus')"
    using empty n len by (intro traps_below_capacity) simp_all
  then obtain a' where h: "fst (LoadHeader ?s') = \<lparr>m_uSavedReports = a', m_uNextReport = a'\<rparr>"
    and a': "uint a' = int (length pus')"
    by auto
  have "fst (LoadHeader (WatchdogInterruptHandler t pu ?s'))
           = \<lparr>m_uSavedReports = a', m_uNextReport = 0\<rparr>"
    using h len n a' by (intro trap_at_capacity) (simp_all add: traps_config)
  then show ?thesis
    using len a' by (simp add: pus traps_append)
qed

theorem traps_fill_log_witness:
  "fst (LoadHeader (boot OtherAVR 500 10 erased)) = \<lparr>m_uSavedReports = 0, m_uNextReport = 0\<rparr>
   \<and> 1 \<le> sint (c_nMaxEntries (ApplicationMonitor (boot OtherAVR 500 10 erased)))
   \<and> sint (c_nMaxEntries (ApplicationMonitor (boot OtherAVR 500 10 erased))) \<le> 255
   \<and> int (length (replicate 10 (\<lambda>i :: nat. if i = 0 then (0x12 :: uint8_t) else 0x34)))
       = sint (c_nMaxEntries (ApplicationMonitor (boot OtherAVR 500 10 erased)))
   \<and> uint (m_uSavedReports (fst (LoadHeader
         (traps OtherAVR (replicate 10 (\<lambda>i. if i = 0 then 0x12 else 0x34))
            (boot OtherAVR 500 10 erased))))) = 9
   \<and> m_uNextReport (fst (LoadHeader
         (traps OtherAVR (replicate 10 (\<lambda>i. if i = 0 then 0x12 else 0x34))
            (boot OtherAVR 500 10 erased)))) = 0"
proof -
  let ?s = "boot OtherAVR 500 10 erased"
  let ?pus = "replicate 10 (\<lambda>i :: nat. if i = 0 then (0x12 :: uint8_t) else 0x34)"
  have n: "sint (c_nMaxEntries (ApplicationMonitor ?s)) = 10"
    by (simp add: eval_simps)
  have h1: "fst (LoadHeader ?s) = \<lparr>m_uSavedReports = 0, m_uNextReport = 0\<rparr>"
    by (simp add: LoadHeader_fst LoadHeader_validate_def eval_simps)
  have h2: "1 \<le> sint (c_nMaxEntries (ApplicationMonitor ?s))"
    and h3: "sint (c_nMaxEntries (ApplicationMonitor ?s)) \<le> 255"
    and h4: "int (length ?pus) = sint (c_nMaxEntries (ApplicationMonitor ?s))"
    unfolding n by simp_all
  show ?thesis
    using h1 h2 h3 h4 traps_fill_log [OF h1 h2 h3 h4, of OtherAVR] unfolding n by simp
qed

section \<open>The output of Dump\<close>

text \<open>
  Claim C7. If the header that \<^verbatim>\<open>LoadHeader\<close> returns has \<^verbatim>\<open>m_uSavedReports = 0\<close>,
  \<^verbatim>\<open>Dump\<close> with \<^verbatim>\<open>bOnlyIfPresent = true\<close> makes no call on the output sink. In every
  other case the calls it makes are the two title lines, the two counters of the header and
  then, for each \<open>k\<close> from 0 to \<^verbatim>\<open>m_uSavedReports - 1\<close> in this order, the number \<open>k\<close>
  followed by the address (as a word and as a byte address) and the data of the report that
  \<^verbatim>\<open>LoadReport(k)\<close> returns: exactly \<^verbatim>\<open>m_uSavedReports\<close> reports.
\<close>

theorem Dump_output:
  "(m_uSavedReports (fst (LoadHeader s)) = 0 \<longrightarrow> fst (Dump t d True s) = d)
   \<and> fst (Dump t d bOnlyIfPresent s) =
     (let Header = fst (LoadHeader s)
      in if bOnlyIfPresent \<and> m_uSavedReports Header = 0 then d
         else d @ [PrintStr ''Application Monitor'', PrintLn,
                   PrintStr ''-------------------'', PrintLn,
                   PrintStr ''Saved reports: '', PrintNum (unat (m_uSavedReports Header)) 10, PrintLn,
                   PrintStr ''Next report: '', PrintNum (unat (m_uNextReport Header)) 10, PrintLn]
              @ concat (map (\<lambda>k.
                  (let Report = fst (LoadReport t (of_nat k) s);
                       uAddress = uint32_of_bytes (take (PROGRAM_COUNTER_SIZE t) (m_auAddress Report))
                   in [PrintNum k 10,
                       PrintStr '': word-address=0x'', PrintNum (unat uAddress) 16,
                       PrintStr '': byte-address=0x'', PrintNum (unat (uAddress * 2)) 16,
                       PrintStr '', data=0x'', PrintNum (unat (m_uData Report)) 16, PrintLn]))
                [0..<unat (m_uSavedReports Header)]))"
proof -
  let ?s1 = "snd (LoadHeader s)"
  have s1: "eeprom ?s1 = eeprom s" "ApplicationMonitor ?s1 = ApplicationMonitor s"
    by (simp_all add: LoadHeader_snd)
  have quiet: "fst (Dump t d True s) = d" if "m_uSavedReports (fst (LoadHeader s)) = 0"
    using that by (simp add: Dump_def split_beta)
  have gen: "fst (Dump t d bOnlyIfPresent s) =
     (let Header = fst (LoadHeader s)
      in if bOnlyIfPresent \<and> m_uSavedReports Header = 0 then d
         else d @ [PrintStr ''Application Monitor'', PrintLn,
                   PrintStr ''-------------------'', PrintLn,
                   PrintStr ''Saved reports: '', PrintNum (unat (m_uSavedReports Header)) 10, PrintLn,
                   PrintStr ''Next report: '', PrintNum (unat (m_uNextReport Header)) 10, PrintLn]
              @ concat (map (\<lambda>k.
                  (let Report = fst (LoadReport t (of_nat k) s);
                       uAddress = uint32_of_bytes (take (PROGRAM_COUNTER_SIZE t) (m_auAddress Report))
                   in [PrintNum k 10,
                       PrintStr '': word-address=0x'', PrintNum (unat uAddress) 16,
                       PrintStr '': byte-address=0x'', PrintNum (unat (uAddress * 2)) 16,
                       PrintStr '', data=0x'', PrintNum (unat (m_uData Report)) 16, PrintLn]))
                [0..<unat (m_uSavedReports Header)]))"
    by (simp add: Dump_def split_beta Let_def Dump_loop_fst [OF s1] PrintValue_def
          unat_ucast_uint8_uint32)
  show ?thesis using quiet gen by blast
qed

theorem Dump_output_witness:
  "m_uSavedReports (fst (LoadHeader (boot OtherAVR 500 10 erased))) = 0
   \<and> fst (Dump OtherAVR [] True (boot OtherAVR 500 10 erased)) = []
   \<and> fst (Dump OtherAVR [] True
          (WatchdogInterruptHandler OtherAVR (\<lambda>i. if i = 0 then 0x12 else 0x34)
             (SetData 0xCAFEBABE (boot OtherAVR 500 10 erased))))
       = [PrintStr ''Application Monitor'', PrintLn,
          PrintStr ''-------------------'', PrintLn,
          PrintStr ''Saved reports: '', PrintNum 1 10, PrintLn,
          PrintStr ''Next report: '', PrintNum 1 10, PrintLn,
          PrintNum 0 10,
          PrintStr '': word-address=0x'', PrintNum 0x1234 16,
          PrintStr '': byte-address=0x'', PrintNum 0x2468 16,
          PrintStr '', data=0x'', PrintNum 0xCAFEBABE 16, PrintLn]"
proof -
  let ?init = "boot OtherAVR 500 10 erased"
  let ?armed = "SetData 0xCAFEBABE ?init"
  let ?pu = "\<lambda>i :: nat. if i = 0 then (0x12 :: uint8_t) else 0x34"
  let ?crashed = "WatchdogInterruptHandler OtherAVR ?pu ?armed"
  have h0: "fst (LoadHeader ?init) = \<lparr>m_uSavedReports = 0, m_uNextReport = 0\<rparr>"
    unfolding LoadHeader_fst
    by (simp add: LoadHeader_validate_def Let_def eval_simps)
  have hs: "fst (LoadHeader ?armed) = \<lparr>m_uSavedReports = 0, m_uNextReport = 0\<rparr>"
    unfolding LoadHeader_fst SetData_def
    by (simp add: LoadHeader_validate_def Let_def eval_simps)
  have n: "c_nMaxEntries (ApplicationMonitor ?armed) = 10"
    by (simp add: SetData_def eval_simps)
  have h1: "fst (LoadHeader ?crashed) = \<lparr>m_uSavedReports = 1, m_uNextReport = 1\<rparr>"
    unfolding WatchdogInterruptHandler_header hs n
    by (simp add: LoadHeader_validate_def Let_def word_sle_eq word_sless_alt)
  have "fst (LoadReport OtherAVR (ucast (m_uNextReport (fst (LoadHeader ?armed)))) ?crashed)
          = \<lparr>m_auAddress = rev (map ?pu [0..<PROGRAM_COUNTER_SIZE OtherAVR]),
             m_uData = m_uData (m_CrashReport (ApplicationMonitor ?armed))\<rparr>"
    by (rule WatchdogInterruptHandler_saved_report)
  then have r: "fst (LoadReport OtherAVR 0 ?crashed) = \<lparr>m_auAddress = [0x34, 0x12], m_uData = 0xCAFEBABE\<rparr>"
    unfolding hs by (simp add: SetData_def eval_nat_numeral)
  have q: "m_uSavedReports (fst (LoadHeader ?init)) = 0"
    unfolding h0 by simp
  have a: "fst (Dump OtherAVR [] True ?init) = []"
    using Dump_output [of ?init OtherAVR "[]" True] q by blast
  have b: "fst (Dump OtherAVR [] True ?crashed)
       = [PrintStr ''Application Monitor'', PrintLn,
          PrintStr ''-------------------'', PrintLn,
          PrintStr ''Saved reports: '', PrintNum 1 10, PrintLn,
          PrintStr ''Next report: '', PrintNum 1 10, PrintLn,
          PrintNum 0 10,
          PrintStr '': word-address=0x'', PrintNum 0x1234 16,
          PrintStr '': byte-address=0x'', PrintNum 0x2468 16,
          PrintStr '', data=0x'', PrintNum 0xCAFEBABE 16, PrintLn]"
    using Dump_output [of ?crashed OtherAVR "[]" True, unfolded h1]
    by (simp add: Let_def r)
  show ?thesis using q a b by blast
qed

end
